theory Spec2Isabelle
  imports Main "HOL-Library.Word"
begin

unbundle bit_operations_syntax

section \<open>Array coercion: dtype and shape discovery (array\_coercion.c)\<close>

text \<open>
  A shallow embedding of the discovery half of \<^verbatim>\<open>array_coercion.c\<close>: the registry
  that maps Python scalar types to DType classes, \<^verbatim>\<open>update_shape\<close>, the coercion
  cache (a singly linked list that is appended to through a pointer to its last
  \<^verbatim>\<open>next\<close> field), \<^verbatim>\<open>handle_promotion\<close>, \<^verbatim>\<open>handle_scalar\<close>, the recursive
  discovery function and the top-level \<^verbatim>\<open>PyArray_DiscoverDTypeAndShape\<close>.

  Python objects are opaque: the model is parametric in the type \<open>'o\<close> of objects and
  every call of the C-API that the source makes on an object is a field of an
  environment record. C \<^verbatim>\<open>int\<close> and \<^verbatim>\<open>npy_intp\<close> values are dimension counts and
  sequence lengths; they are modelled as \<open>int\<close> (no arithmetic in the file can leave
  the machine range: the only sums are of two dimension counts).
\<close>

subsection \<open>Type objects, descriptors, exceptions\<close>

text \<open>
  A Python type object is identified by a number. A DType class is a type object too
  (an instance of the DType metaclass), so both live in the same space of identities:
  the registry is a dictionary whose keys are type objects.
\<close>

type_synonym pytype = nat

text \<open>The type numbers the source names; only their distinctness is used.\<close>

datatype typenum =
    NPY_BYTE | NPY_DOUBLE | NPY_OBJECT | NPY_STRING | NPY_UNICODE | NPY_VOID
  | NPY_OTHER nat

definition NPY_DEFAULT_TYPE :: typenum where
  "NPY_DEFAULT_TYPE = NPY_DOUBLE"

text \<open>
  A descriptor (DType instance): its class \<^verbatim>\<open>NPY_DTYPE(descr)\<close>, \<^verbatim>\<open>type_num\<close>,
  the \<^verbatim>\<open>type\<close> character, whether it has \<^verbatim>\<open>names\<close> or a \<^verbatim>\<open>subarray\<close>, and the
  remaining parameters (item size, unit) as one number.
\<close>

datatype descr =
  Descr (NPY_DTYPE: pytype) (type_num: typenum) (type_char: char)
        (names_or_subarray: bool) (elsize: nat)

datatype pyexc =
    RuntimeError string | TypeError string | ValueError string
  | NotImplementedError string | MemoryError | KeyError | OtherError

subsection \<open>The registry of scalar types\<close>

text \<open>
  \<^verbatim>\<open>_global_pytype_to_type_dict\<close>: a value is \<^verbatim>\<open>None\<close> (a known non-scalar such
  as list, tuple, ndarray) or a weak reference to a DType class.
\<close>

datatype regentry = RegNone | RegWeakref pytype

type_synonym registry = "pytype \<rightharpoonup> regentry"

text \<open>The three type objects \<^verbatim>\<open>_prime_global_pytype_to_type_dict\<close> enters.\<close>

definition PyList_Type :: pytype where "PyList_Type = 0"
definition PyTuple_Type :: pytype where "PyTuple_Type = 1"
definition PyArray_Type :: pytype where "PyArray_Type = 2"

definition prime_global_pytype_to_type_dict :: "registry \<Rightarrow> registry" where
  "prime_global_pytype_to_type_dict d =
     d(PyList_Type \<mapsto> RegNone, PyTuple_Type \<mapsto> RegNone, PyArray_Type \<mapsto> RegNone)"

text \<open>
  \<^verbatim>\<open>_PyArray_MapPyTypeToDType(DType, pytype, userdef)\<close>. The global dictionary
  may not exist yet (\<open>None\<close>); \<open>is_generic_subclass\<close> is
  \<^verbatim>\<open>PyObject_IsSubclass(pytype, &PyGenericArrType_Type)\<close>. The membership test is
  made with the DType object as the key, as the source writes it.
\<close>

definition PyArray_MapPyTypeToDType ::
  "(pytype \<Rightarrow> bool) \<Rightarrow> registry option \<Rightarrow> pytype \<Rightarrow> pytype \<Rightarrow> bool
     \<Rightarrow> pyexc + registry" where
  "PyArray_MapPyTypeToDType is_generic_subclass global DType pytype userdef =
     (if userdef \<and> \<not> is_generic_subclass pytype then
        Inl (RuntimeError ''currently it is only possible to register a DType for scalars deriving from `np.generic`'')
      else
        let d = (case global of
                   None \<Rightarrow> prime_global_pytype_to_type_dict Map.empty
                 | Some d \<Rightarrow> d)
        in if DType \<in> dom d then
             Inl (RuntimeError ''Can only map one python type to DType.'')
           else Inr (d(pytype \<mapsto> RegWeakref DType)))"

text \<open>
  \<^verbatim>\<open>discover_dtype_from_pytype\<close>: \<open>LookupNULL\<close> is the C \<^verbatim>\<open>NULL\<close> (unknown
  type), \<open>LookupNone\<close> is \<^verbatim>\<open>Py_None\<close>. \<open>alive D\<close> tells whether the class a weak
  reference points to still exists: \<^verbatim>\<open>PyWeakref_GET_OBJECT\<close> gives \<^verbatim>\<open>Py_None\<close>
  for a dead reference. After the entry of a dead reference is deleted the function
  goes on to return the object it read, which is \<^verbatim>\<open>Py_None\<close>.
\<close>

datatype lookup = LookupNULL | LookupNone | LookupDType pytype

definition discover_dtype_from_pytype ::
  "(pytype \<Rightarrow> bool) \<Rightarrow> registry \<Rightarrow> pytype \<Rightarrow> lookup \<times> registry" where
  "discover_dtype_from_pytype alive d pytype =
     (case d pytype of
        None \<Rightarrow> (LookupNULL, d)
      | Some RegNone \<Rightarrow> (LookupNone, d)
      | Some (RegWeakref D) \<Rightarrow>
          if \<not> alive D then (LookupNone, d(pytype := None))
          else (LookupDType D, d))"

subsection \<open>Discovery flags\<close>

type_synonym dflags = "32 word"

definition IS_RAGGED_ARRAY :: dflags where "IS_RAGGED_ARRAY = 1"
definition REACHED_MAXDIMS :: dflags where "REACHED_MAXDIMS = 2"
definition GAVE_SUBCLASS_WARNING :: dflags where "GAVE_SUBCLASS_WARNING = 4"
definition PROMOTION_FAILED :: dflags where "PROMOTION_FAILED = 8"
definition DISCOVER_STRINGS_AS_SEQUENCES :: dflags where "DISCOVER_STRINGS_AS_SEQUENCES = 16"
definition DISCOVER_TUPLES_AS_ELEMENTS :: dflags where "DISCOVER_TUPLES_AS_ELEMENTS = 32"

definition flag_set :: "dflags \<Rightarrow> dflags \<Rightarrow> bool" where
  "flag_set flags f \<longleftrightarrow> flags AND f \<noteq> 0"

subsection \<open>The shape array and \<^verbatim>\<open>update_shape\<close>\<close>

text \<open>
  A run of C code returns, or does something C leaves undefined (an access outside an
  array or through a dangling pointer, a call through a null function pointer:
  \<open>Undefined\<close>), or, for the recursive function below, uses up the recursion
  depth it was given (\<open>OutOfFuel\<close>).
\<close>

datatype 'a run = Returns 'a | Undefined | OutOfFuel

definition run_bind :: "'a run \<Rightarrow> ('a \<Rightarrow> 'b run) \<Rightarrow> 'b run" where
  "run_bind m f = (case m of Returns a \<Rightarrow> f a | Undefined \<Rightarrow> Undefined | OutOfFuel \<Rightarrow> OutOfFuel)"

definition shape_at :: "int list \<Rightarrow> int \<Rightarrow> int option" where
  "shape_at xs i = (if 0 \<le> i \<and> i < int (length xs) then Some (xs ! nat i) else None)"

text \<open>
  The \<^verbatim>\<open>for\<close> loop of \<^verbatim>\<open>update_shape\<close>, from index \<open>i\<close> on. The state is
  \<open>(success, max_ndim, out_shape)\<close>; \<open>new_ndim\<close> is the possibly reduced count.
\<close>

function update_shape_loop ::
  "int \<Rightarrow> int \<Rightarrow> int \<Rightarrow> int list \<Rightarrow> bool \<Rightarrow> int \<times> int \<times> int list
     \<Rightarrow> (int \<times> int \<times> int list) run" where
  "update_shape_loop i curr_ndim new_ndim new_shape sequence (success, max_ndim, out_shape) =
     (if i < new_ndim then
        (case shape_at out_shape (curr_ndim + i) of
           None \<Rightarrow> Undefined
         | Some curr_dim \<Rightarrow>
             (case shape_at new_shape i of
                None \<Rightarrow> Undefined
              | Some new_dim \<Rightarrow>
                  if curr_dim = -1 then
                    update_shape_loop (i + 1) curr_ndim new_ndim new_shape sequence
                      (success, max_ndim, out_shape[nat (curr_ndim + i) := new_dim])
                  else if new_dim \<noteq> curr_dim then
                    Returns (-1,
                             if \<not> sequence then max_ndim - (new_ndim + i) else curr_ndim,
                             out_shape)
                  else
                    update_shape_loop (i + 1) curr_ndim new_ndim new_shape sequence
                      (success, max_ndim, out_shape)))
      else Returns (success, max_ndim, out_shape))"
  by pat_completeness auto
termination
  by (relation "measure (\<lambda>(i, c, n, ns, s, st). nat (n - i))") auto

declare update_shape_loop.simps [simp del]

text \<open>\<^verbatim>\<open>update_shape\<close>: returns \<open>(success, max_ndim, out_shape)\<close>.\<close>

definition update_shape ::
  "int \<Rightarrow> int \<Rightarrow> int list \<Rightarrow> int \<Rightarrow> int list \<Rightarrow> bool \<Rightarrow> (int \<times> int \<times> int list) run" where
  "update_shape curr_ndim max_ndim out_shape new_ndim new_shape sequence =
     (if curr_ndim + new_ndim > max_ndim then
        update_shape_loop 0 curr_ndim (max_ndim - curr_ndim) new_shape sequence
          (-1, max_ndim, out_shape)
      else if \<not> sequence \<and> max_ndim \<noteq> curr_ndim + new_ndim then
        (case shape_at out_shape (curr_ndim + new_ndim) of
           None \<Rightarrow> Undefined
         | Some d \<Rightarrow>
             update_shape_loop 0 curr_ndim new_ndim new_shape sequence
               (if d \<ge> 0 then -1 else 0, curr_ndim + new_ndim, out_shape))
      else
        update_shape_loop 0 curr_ndim new_ndim new_shape sequence (0, max_ndim, out_shape))"

subsection \<open>The C-API as an environment\<close>

text \<open>
  The slots of a DType class (\<^verbatim>\<open>PyArray_DTypeMeta\<close>) the source reads. A slot
  that may be \<^verbatim>\<open>NULL\<close> is an option. \<open>default_descr\<close> and
  \<open>discover_descr_from_pyobject\<close> give the result of calling the slot: an exception
  (the C \<^verbatim>\<open>NULL\<close> with an error set), \<^verbatim>\<open>NotImplemented\<close>, or a descriptor.
\<close>

datatype descr_result = DescrError pyexc | DescrNotImplemented | DescrOk descr

record 'o dtypemeta =
  scalar_type :: pytype
  is_known_scalar :: "('o \<Rightarrow> bool) option"
  is_parametric :: bool
  legacy :: bool
  dt_type_num :: typenum
  singleton :: descr
  default_descr :: "(pyexc + descr) option"
  discover_descr_from_pyobject :: "'o \<Rightarrow> descr_result"

datatype 'o arraylike = ArrError pyexc | ArrNotImplemented | Arr 'o

text \<open>
  What the source asks of objects and of the rest of NumPy. \<open>PyBytes_Size\<close> and
  \<open>PyUnicode_GetLength\<close> are \<open>None\<close> when the type check fails;
  \<open>PySequence_Fast\<close> gives the exception raised or the new sequence object with
  its items; \<open>PyArray_IterNew\<close> gives the elements of an object array in iteration
  order; \<open>PyArray_malloc_ok k\<close> tells whether the allocation made when \<open>k\<close> cache
  nodes exist succeeds; \<open>PyErr_WarnEx\<close> is \<open>None\<close> when the warning is issued
  without raising. \<open>PyArray_DescrFromType\<close> stands for
  \<^verbatim>\<open>PyArray_DescrNewFromType\<close> too, which returns a copy of the same descriptor.
\<close>

record 'o capi =
  Py_TYPE :: "'o \<Rightarrow> pytype"
  PyBytes_Size :: "'o \<Rightarrow> int option"
  PyUnicode_GetLength :: "'o \<Rightarrow> int option"
  PyTuple_Check :: "'o \<Rightarrow> bool"
  PySequence_Check :: "'o \<Rightarrow> bool"
  PySequence_Size :: "'o \<Rightarrow> pyexc + int"
  PySequence_Fast :: "'o \<Rightarrow> pyexc + 'o \<times> 'o list"
  PyArray_Check :: "'o \<Rightarrow> bool"
  array_from_array_like :: "'o \<Rightarrow> descr option \<Rightarrow> 'o arraylike"
  PyArray_NDIM :: "'o \<Rightarrow> int"
  PyArray_SHAPE :: "'o \<Rightarrow> int list"
  PyArray_DESCR :: "'o \<Rightarrow> descr"
  PyArray_IterNew :: "'o \<Rightarrow> pyexc + 'o list"
  PyArray_IsScalar_Generic :: "'o \<Rightarrow> bool"
  PyArray_DescrFromScalar :: "'o \<Rightarrow> pyexc + descr"
  array_find_python_scalar_type :: "'o \<Rightarrow> descr option"
  PyArray_DescrFromType :: "typenum \<Rightarrow> descr"
  PyObject_IsInstance :: "descr \<Rightarrow> pytype \<Rightarrow> bool"
  PyArray_AdaptFlexibleDType :: "descr \<Rightarrow> descr \<Rightarrow> pyexc + descr"
  PyArray_PromoteTypes :: "descr \<Rightarrow> descr \<Rightarrow> pyexc + descr"
  DTypeMeta :: "pytype \<Rightarrow> 'o dtypemeta"
  weakref_alive :: "pytype \<Rightarrow> bool"
  PyArray_malloc_ok :: "nat \<Rightarrow> bool"
  import_VisibleDeprecationWarning :: "pyexc option"
  PyErr_WarnEx :: "pyexc option"

subsection \<open>The coercion cache and the state of a discovery call\<close>

text \<open>
  A cache node lives at an address (its index in the list of allocations; a freed
  node is \<open>None\<close>). A \<^verbatim>\<open>coercion_cache_obj **\<close> points to a cell that holds a
  node pointer: the caller's variable, or the \<^verbatim>\<open>next\<close> field of a node.
\<close>

record 'o coercion_cache_obj =
  converted_obj :: 'o
  arr_or_sequence :: 'o
  sequence :: bool
  cache_next :: "nat option"

datatype cell = CallerCache | NextOf nat

text \<open>
  Everything a discovery call reads and writes: \<^verbatim>\<open>*out_descr\<close>, the shape array,
  the flags, the allocated cache nodes, the caller's cache pointer, the value of the
  top-level function's variable \<^verbatim>\<open>coercion_cache\<close> (whose address is handed down
  as \<^verbatim>\<open>coercion_cache_tail_ptr\<close>), the registry, the Python error indicator, and
  the numbers of calls made of \<^verbatim>\<open>PyErr_WarnEx\<close> and of \<^verbatim>\<open>PyArray_PromoteTypes\<close>.
\<close>

record 'o dstate =
  out_descr :: "descr option"
  out_shape :: "int list"
  flags :: dflags
  heap :: "'o coercion_cache_obj option list"
  caller_cache :: "nat option"
  coercion_cache :: cell
  registry :: registry
  exc :: "pyexc option"
  warnings :: nat
  promotions :: nat

definition read_cell :: "'o dstate \<Rightarrow> cell \<Rightarrow> nat option option" where
  "read_cell st c =
     (case c of
        CallerCache \<Rightarrow> Some (caller_cache st)
      | NextOf a \<Rightarrow>
          if a < length (heap st) then
            (case heap st ! a of None \<Rightarrow> None | Some n \<Rightarrow> Some (cache_next n))
          else None)"

definition write_cell :: "'o dstate \<Rightarrow> cell \<Rightarrow> nat option \<Rightarrow> 'o dstate run" where
  "write_cell st c p =
     (case c of
        CallerCache \<Rightarrow> Returns (st\<lparr>caller_cache := p\<rparr>)
      | NextOf a \<Rightarrow>
          if a < length (heap st) then
            (case heap st ! a of
               None \<Rightarrow> Undefined
             | Some n \<Rightarrow> Returns (st\<lparr>heap := (heap st)[a := Some (n\<lparr>cache_next := p\<rparr>)]\<rparr>))
          else Undefined)"

text \<open>
  \<^verbatim>\<open>npy_new_coercion_cache(converted_obj, arr_or_sequence, sequence, next_ptr)\<close>
  with \<^verbatim>\<open>next_ptr = &coercion_cache\<close>: the new node is stored into the cell the
  variable points to, and the variable is moved to the node's \<^verbatim>\<open>next\<close> field.
\<close>

definition npy_new_coercion_cache ::
  "'o capi \<Rightarrow> 'o \<Rightarrow> 'o \<Rightarrow> bool \<Rightarrow> 'o dstate \<Rightarrow> (int \<times> 'o dstate) run" where
  "npy_new_coercion_cache env converted arr_or_seq is_seq st =
     (if \<not> PyArray_malloc_ok env (length (heap st)) then
        Returns (-1, st\<lparr>exc := Some MemoryError\<rparr>)
      else
        let a = length (heap st);
            cache = \<lparr>converted_obj = converted, arr_or_sequence = arr_or_seq,
                     sequence = is_seq, cache_next = None\<rparr>;
            st1 = st\<lparr>heap := heap st @ [Some cache]\<rparr>
        in run_bind (write_cell st1 (coercion_cache st1) (Some a))
             (\<lambda>st2. Returns (0, st2\<lparr>coercion_cache := NextOf a\<rparr>)))"

definition live_nodes :: "'a option list \<Rightarrow> nat" where
  "live_nodes h = length (filter (\<lambda>x. x \<noteq> None) h)"

lemma live_nodes_free:
  "a < length h \<Longrightarrow> h ! a = Some n \<Longrightarrow> live_nodes (h[a := None]) < live_nodes h"
proof (induction h arbitrary: a)
  case Nil
  then show ?case by simp
next
  case (Cons x xs)
  show ?case
  proof (cases a)
    case 0
    with Cons.prems show ?thesis by (simp add: live_nodes_def)
  next
    case (Suc b)
    with Cons.prems have "live_nodes (xs[b := None]) < live_nodes xs"
      by (intro Cons.IH) simp_all
    with Suc show ?thesis by (simp add: live_nodes_def)
  qed
qed

text \<open>
  \<^verbatim>\<open>npy_free_coercion_cache(next)\<close>: walks the list from \<open>next\<close>, dropping the
  reference each node holds and freeing the node.
\<close>

function npy_free_coercion_cache ::
  "nat option \<Rightarrow> 'o coercion_cache_obj option list \<Rightarrow> 'o coercion_cache_obj option list run" where
  "npy_free_coercion_cache None h = Returns h"
| "npy_free_coercion_cache (Some a) h =
     (if a < length h then
        (case h ! a of
           None \<Rightarrow> Undefined
         | Some current \<Rightarrow> npy_free_coercion_cache (cache_next current) (h[a := None]))
      else Undefined)"
  by pat_completeness auto
termination
  by (relation "measure (\<lambda>(p, h). live_nodes h)") (auto simp: live_nodes_free)

subsection \<open>Finding the DType class and the descriptor of a scalar\<close>

text \<open>
  \<^verbatim>\<open>discover_dtype_from_pyobject(obj, flags, fixed_DType)\<close>: a DType class,
  \<^verbatim>\<open>Py_None\<close>, or \<^verbatim>\<open>NULL\<close> on error. \<open>fixed_DType_claims\<close> is the test
  made when a DType is fixed; \<open>legacy_dtype_discovery\<close> is the part after the lookup
  in the registry has returned \<^verbatim>\<open>NULL\<close> (the attempts made for backward
  compatibility). The branch guarded by \<^verbatim>\<open>if (0 && ...)\<close> never runs and is left
  out.
\<close>

definition legacy_dtype_discovery ::
  "'o capi \<Rightarrow> 'o \<Rightarrow> 'o dstate \<Rightarrow> lookup \<times> 'o dstate" where
  "legacy_dtype_discovery env obj st =
     (if PyArray_IsScalar_Generic env obj then
        (case PyArray_DescrFromScalar env obj of
           Inl e \<Rightarrow> (LookupNULL, st\<lparr>exc := Some e\<rparr>)
         | Inr legacy_descr \<Rightarrow> (LookupDType (NPY_DTYPE legacy_descr), st))
      else if PyBytes_Size env obj \<noteq> None then
        (LookupDType (NPY_DTYPE (PyArray_DescrFromType env NPY_BYTE)), st)
      else if PyUnicode_GetLength env obj \<noteq> None then
        (LookupDType (NPY_DTYPE (PyArray_DescrFromType env NPY_UNICODE)), st)
      else
        (case array_find_python_scalar_type env obj of
           Some legacy_descr \<Rightarrow> (LookupDType (NPY_DTYPE legacy_descr), st)
         | None \<Rightarrow> (LookupNone, st)))"

definition fixed_DType_claims :: "'o capi \<Rightarrow> 'o \<Rightarrow> pytype option \<Rightarrow> bool" where
  "fixed_DType_claims env obj fixed_DType =
     (case fixed_DType of
        None \<Rightarrow> False
      | Some F \<Rightarrow>
          Py_TYPE env obj = scalar_type (DTypeMeta env F) \<or>
          (case is_known_scalar (DTypeMeta env F) of
             None \<Rightarrow> False
           | Some known \<Rightarrow> known obj))"

definition discover_dtype_from_pyobject ::
  "'o capi \<Rightarrow> 'o \<Rightarrow> pytype option \<Rightarrow> 'o dstate \<Rightarrow> lookup \<times> 'o dstate" where
  "discover_dtype_from_pyobject env obj fixed_DType st =
     (if fixed_DType_claims env obj fixed_DType then (LookupDType (the fixed_DType), st)
      else
        let (DType, d) = discover_dtype_from_pytype (weakref_alive env) (registry st)
                           (Py_TYPE env obj);
            st1 = st\<lparr>registry := d\<rparr>
        in if DType \<noteq> LookupNULL then (DType, st1)
           else legacy_dtype_discovery env obj st1)"

definition cast_descriptor_to_fixed_dtype ::
  "'o capi \<Rightarrow> descr \<Rightarrow> pytype option \<Rightarrow> (pyexc + descr) run" where
  "cast_descriptor_to_fixed_dtype env descr fixed_DType =
     (case fixed_DType of
        None \<Rightarrow> Returns (Inr descr)
      | Some F \<Rightarrow>
          if \<not> is_parametric (DTypeMeta env F) then
            (case default_descr (DTypeMeta env F) of
               None \<Rightarrow> Undefined
             | Some r \<Rightarrow> Returns r)
          else if PyObject_IsInstance env descr F then Returns (Inr descr)
          else if legacy (DTypeMeta env F) \<and> is_parametric (DTypeMeta env F) then
            Returns (PyArray_AdaptFlexibleDType env descr
                       (PyArray_DescrFromType env (dt_type_num (DTypeMeta env F))))
          else
            Returns (Inl (NotImplementedError
              ''Must use casting to find the correct dtype, this is not yet implemented, oh noes! (It should not be possible to hit this code currently!)'')))"

definition bad_dtype_msg :: string where
  "bad_dtype_msg = ''DType %R was unable to handle its own scalar type. This is an error in the DType's implementation.''"

text \<open>
  \<^verbatim>\<open>find_scalar_descriptor(fixed_DType, DType, obj, requested_descr)\<close>; \<open>DType\<close>
  is \<open>None\<close> for the C \<^verbatim>\<open>NULL\<close>.
\<close>

definition find_scalar_descriptor ::
  "'o capi \<Rightarrow> pytype option \<Rightarrow> pytype option \<Rightarrow> 'o \<Rightarrow> descr option
     \<Rightarrow> (pyexc + descr) run" where
  "find_scalar_descriptor env fixed_DType DType obj requested_descr =
     (case requested_descr of
        Some r \<Rightarrow> Returns (Inr r)
      | None \<Rightarrow>
          let first_chance =
                (case fixed_DType of
                   None \<Rightarrow> None
                 | Some F \<Rightarrow>
                     (case discover_descr_from_pyobject (DTypeMeta env F) obj of
                        DescrError e \<Rightarrow> Some (Inl e)
                      | DescrOk d \<Rightarrow> Some (Inr d)
                      | DescrNotImplemented \<Rightarrow>
                          if DType = fixed_DType then Some (Inl (RuntimeError bad_dtype_msg))
                          else None))
          in case first_chance of
               Some r \<Rightarrow> Returns r
             | None \<Rightarrow>
                 (case DType of
                    None \<Rightarrow>
                      if fixed_DType \<noteq> None then
                        Returns (Inl (TypeError ''unable to represent the object %(50)R using the DType %R.''))
                      else Returns (Inr (PyArray_DescrFromType env NPY_OBJECT))
                  | Some D \<Rightarrow>
                      (case discover_descr_from_pyobject (DTypeMeta env D) obj of
                         DescrError e \<Rightarrow> Returns (Inl e)
                       | DescrNotImplemented \<Rightarrow> Returns (Inl (RuntimeError bad_dtype_msg))
                       | DescrOk descr \<Rightarrow>
                           if fixed_DType = None then Returns (Inr descr)
                           else cast_descriptor_to_fixed_dtype env descr fixed_DType)))"

subsection \<open>Promotion and scalar leaves\<close>

text \<open>
  \<^verbatim>\<open>handle_promotion(out_descr, descr, requested_descr, flags)\<close>. Every path
  returns 0.
\<close>

definition handle_promotion ::
  "'o capi \<Rightarrow> descr \<Rightarrow> descr option \<Rightarrow> 'o dstate \<Rightarrow> int \<times> 'o dstate" where
  "handle_promotion env descr requested_descr st =
     (if requested_descr \<noteq> None then (0, st)
      else
        (case out_descr st of
           None \<Rightarrow> (0, st\<lparr>out_descr := Some descr\<rparr>)
         | Some old \<Rightarrow>
             (case PyArray_PromoteTypes env old descr of
                Inr new_descr \<Rightarrow>
                  (0, st\<lparr>out_descr := Some new_descr, promotions := promotions st + 1\<rparr>)
              | Inl e \<Rightarrow>
                  (0, st\<lparr>exc := None,
                         flags := flags st OR PROMOTION_FAILED,
                         out_descr := Some (PyArray_DescrFromType env NPY_OBJECT),
                         promotions := promotions st + 1\<rparr>))))"

text \<open>
  \<^verbatim>\<open>handle_scalar\<close>. The parameter \<open>shape_null\<close> says that \<^verbatim>\<open>out_shape\<close> is
  \<^verbatim>\<open>NULL\<close> (the call made for the elements of an object array): no element of it
  can be accessed then. The result is the returned \<^verbatim>\<open>int\<close> (-1, or the updated
  \<^verbatim>\<open>*max_dims\<close>) and the new state.
\<close>

definition handle_scalar ::
  "'o capi \<Rightarrow> 'o \<Rightarrow> int \<Rightarrow> int \<Rightarrow> bool \<Rightarrow> pytype option \<Rightarrow> descr option
     \<Rightarrow> pytype option \<Rightarrow> 'o dstate \<Rightarrow> (int \<times> 'o dstate) run" where
  "handle_scalar env obj curr_dims max_dims shape_null fixed_DType requested_descr DType st =
     run_bind (find_scalar_descriptor env fixed_DType DType obj requested_descr)
       (\<lambda>found.
          case found of
            Inl e \<Rightarrow> Returns (-1, st\<lparr>exc := Some e\<rparr>)
          | Inr descr \<Rightarrow>
              run_bind (update_shape curr_dims max_dims
                          (if shape_null then [] else out_shape st) 0 [] False)
                (\<lambda>(success, max_dims1, shape1).
                   let st1 = (if shape_null then st else st\<lparr>out_shape := shape1\<rparr>)
                   in if success < 0 then
                        Returns (max_dims1,
                                 st1\<lparr>flags := flags st1 OR IS_RAGGED_ARRAY,
                                     out_descr := Some (PyArray_DescrFromType env NPY_OBJECT)\<rparr>)
                      else
                        let (res, st2) = handle_promotion env descr requested_descr st1
                        in if res < 0 then Returns (-1, st2)
                           else Returns (max_dims1, st2)))"

subsection \<open>The recursive discovery function\<close>

text \<open>
  The loop over the elements of an object array (the special case of a parametric
  fixed DType): each element goes through \<^verbatim>\<open>handle_scalar\<close> with
  \<^verbatim>\<open>flat_max_dims = 0\<close> and a \<^verbatim>\<open>NULL\<close> shape. The source passes the discovered
  class in the position of \<^verbatim>\<open>fixed_DType\<close> and the fixed class in the position of
  \<^verbatim>\<open>DType\<close>, and does not test the discovered class for \<^verbatim>\<open>NULL\<close>.
\<close>

fun object_array_elements ::
  "'o capi \<Rightarrow> pytype option \<Rightarrow> 'o list \<Rightarrow> int \<Rightarrow> 'o dstate \<Rightarrow> (int \<times> 'o dstate) run" where
  "object_array_elements env fixed_DType [] max_dims st = Returns (max_dims, st)"
| "object_array_elements env fixed_DType (elem # rest) max_dims st =
     (let (found, st1) = discover_dtype_from_pyobject env elem fixed_DType st;
          DType = (case found of LookupDType D \<Rightarrow> Some D | _ \<Rightarrow> None)
      in run_bind (handle_scalar env elem 0 0 True DType None fixed_DType st1)
           (\<lambda>(res, st2).
              if res < 0 then Returns (-1, st2)
              else object_array_elements env fixed_DType rest max_dims st2))"

text \<open>The branch taken when \<^verbatim>\<open>arr\<close> is not \<^verbatim>\<open>NULL\<close>.\<close>

definition discover_array ::
  "'o capi \<Rightarrow> pytype option \<Rightarrow> descr option \<Rightarrow> 'o \<Rightarrow> 'o \<Rightarrow> int \<Rightarrow> int \<Rightarrow> 'o dstate
     \<Rightarrow> (int \<times> 'o dstate) run" where
  "discover_array env fixed_DType requested_descr obj arr curr_dims max_dims st =
     run_bind (npy_new_coercion_cache env obj arr False st)
       (\<lambda>(res, st1).
          if res < 0 then Returns (-1, st1)
          else
            run_bind (update_shape curr_dims max_dims (out_shape st1)
                        (PyArray_NDIM env arr) (PyArray_SHAPE env arr) False)
              (\<lambda>(success, max_dims1, shape1).
                 let st2 = st1\<lparr>out_shape := shape1\<rparr>
                 in if success < 0 then
                      Returns (max_dims1, st2\<lparr>flags := flags st2 OR IS_RAGGED_ARRAY\<rparr>)
                    else if type_num (PyArray_DESCR env arr) = NPY_OBJECT \<and>
                            fixed_DType \<noteq> None \<and>
                            is_parametric (DTypeMeta env (the fixed_DType)) \<and>
                            requested_descr = None then
                      (case PyArray_IterNew env arr of
                         Inl e \<Rightarrow> Returns (-1, st2\<lparr>exc := Some e\<rparr>)
                       | Inr elems \<Rightarrow> object_array_elements env fixed_DType elems max_dims1 st2)
                    else if requested_descr = None then
                      run_bind (cast_descriptor_to_fixed_dtype env (PyArray_DESCR env arr) fixed_DType)
                        (\<lambda>cast.
                           case cast of
                             Inl e \<Rightarrow> Returns (-1, st2\<lparr>exc := Some e\<rparr>)
                           | Inr descr \<Rightarrow>
                               let (res, st3) = handle_promotion env descr requested_descr st2
                               in if res < 0 then Returns (-1, st3)
                                  else Returns (max_dims1, st3))
                    else Returns (max_dims1, st2)))"

text \<open>
  The \<^verbatim>\<open>for\<close> loop over the items of a sequence; \<open>recurse\<close> is the recursive
  call, made at depth \<open>curr_dims + 1\<close> with the running \<open>max_dims\<close>.
\<close>

fun sequence_items ::
  "('o \<Rightarrow> int \<Rightarrow> int \<Rightarrow> 'o dstate \<Rightarrow> (int \<times> 'o dstate) run)
     \<Rightarrow> 'o list \<Rightarrow> int \<Rightarrow> int \<Rightarrow> 'o dstate \<Rightarrow> (int \<times> 'o dstate) run" where
  "sequence_items recurse [] curr_dims max_dims st = Returns (max_dims, st)"
| "sequence_items recurse (item # rest) curr_dims max_dims st =
     run_bind (recurse item (curr_dims + 1) max_dims st)
       (\<lambda>(max_dims1, st1).
          if max_dims1 < 0 then Returns (-1, st1)
          else sequence_items recurse rest curr_dims max_dims1 st1)"

text \<open>The code from the label \<^verbatim>\<open>force_sequence_due_to_char_dtype\<close> on.\<close>

definition discover_sequence ::
  "('o \<Rightarrow> int \<Rightarrow> int \<Rightarrow> 'o dstate \<Rightarrow> (int \<times> 'o dstate) run)
     \<Rightarrow> 'o capi \<Rightarrow> pytype option \<Rightarrow> descr option \<Rightarrow> 'o \<Rightarrow> int \<Rightarrow> int \<Rightarrow> 'o dstate
     \<Rightarrow> (int \<times> 'o dstate) run" where
  "discover_sequence recurse env fixed_DType requested_descr obj curr_dims max_dims st =
     (case PySequence_Fast env obj of
        Inl e \<Rightarrow>
          if e = KeyError then
            handle_scalar env obj curr_dims max_dims False fixed_DType requested_descr None
              (st\<lparr>exc := None\<rparr>)
          else Returns (-1, st\<lparr>exc := Some e\<rparr>)
      | Inr (seq, objects) \<Rightarrow>
          run_bind (npy_new_coercion_cache env obj seq True st)
            (\<lambda>(res, st1).
               if res < 0 then Returns (-1, st1)
               else
                 let size = int (length objects)
                 in run_bind (update_shape curr_dims max_dims (out_shape st1) 1 [size] True)
                      (\<lambda>(success, max_dims1, shape1).
                         let st2 = st1\<lparr>out_shape := shape1\<rparr>
                         in if success < 0 then
                              Returns (max_dims1, st2\<lparr>flags := flags st2 OR IS_RAGGED_ARRAY\<rparr>)
                            else if size = 0 then Returns (curr_dims + 1, st2)
                            else sequence_items recurse objects curr_dims max_dims1 st2)))"

text \<open>
  The body of \<^verbatim>\<open>PyArray_DiscoverDTypeAndShape_Recursive\<close>, with the recursive
  call as the parameter \<open>recurse\<close>.
\<close>

definition discover_node ::
  "('o \<Rightarrow> int \<Rightarrow> int \<Rightarrow> 'o dstate \<Rightarrow> (int \<times> 'o dstate) run)
     \<Rightarrow> 'o capi \<Rightarrow> pytype option \<Rightarrow> descr option \<Rightarrow> 'o \<Rightarrow> int \<Rightarrow> int \<Rightarrow> 'o dstate
     \<Rightarrow> (int \<times> 'o dstate) run" where
  "discover_node recurse env fixed_DType requested_descr obj curr_dims max_dims st =
     (if flag_set (flags st) DISCOVER_STRINGS_AS_SEQUENCES \<and>
         ((case PyBytes_Size env obj of None \<Rightarrow> False | Some n \<Rightarrow> n \<noteq> 1) \<or>
          (case PyUnicode_GetLength env obj of None \<Rightarrow> False | Some n \<Rightarrow> n \<noteq> 1))
      then discover_sequence recurse env fixed_DType requested_descr obj curr_dims max_dims st
      else
        (case discover_dtype_from_pyobject env obj fixed_DType st of
           (LookupNULL, st1) \<Rightarrow> Returns (-1, st1)
         | (LookupDType DType, st1) \<Rightarrow>
             handle_scalar env obj curr_dims max_dims False fixed_DType requested_descr
               (Some DType) st1
         | (LookupNone, st1) \<Rightarrow>
             (case (if PyArray_Check env obj then Arr obj
                    else array_from_array_like env obj requested_descr) of
                ArrError e \<Rightarrow> Returns (-1, st1\<lparr>exc := Some e\<rparr>)
              | Arr arr \<Rightarrow>
                  discover_array env fixed_DType requested_descr obj arr curr_dims max_dims st1
              | ArrNotImplemented \<Rightarrow>
                  let is_sequence =
                        (PySequence_Check env obj \<and>
                         (case PySequence_Size env obj of Inl e \<Rightarrow> False | Inr n \<Rightarrow> n \<ge> 0));
                      is_sequence =
                        (if flag_set (flags st1) DISCOVER_TUPLES_AS_ELEMENTS \<and>
                            PyTuple_Check env obj
                         then False else is_sequence)
                  in if curr_dims = max_dims \<or> \<not> is_sequence then
                       run_bind (handle_scalar env obj curr_dims max_dims False fixed_DType
                                   requested_descr None (st1\<lparr>exc := None\<rparr>))
                         (\<lambda>(max_dims1, st2).
                            Returns (max_dims1,
                                     if is_sequence
                                     then st2\<lparr>flags := flags st2 OR REACHED_MAXDIMS\<rparr>
                                     else st2))
                     else
                       discover_sequence recurse env fixed_DType requested_descr obj
                         curr_dims max_dims st1)))"

text \<open>
  \<^verbatim>\<open>PyArray_DiscoverDTypeAndShape_Recursive\<close>. The first argument bounds the depth
  of nested calls: with \<open>n\<close> left, a call may nest \<open>n\<close> deep, and a call with none
  left does not return a result.
\<close>

primrec PyArray_DiscoverDTypeAndShape_Recursive ::
  "nat \<Rightarrow> 'o capi \<Rightarrow> pytype option \<Rightarrow> descr option
     \<Rightarrow> 'o \<Rightarrow> int \<Rightarrow> int \<Rightarrow> 'o dstate \<Rightarrow> (int \<times> 'o dstate) run" where
  "PyArray_DiscoverDTypeAndShape_Recursive 0 env fixed_DType requested_descr =
     (\<lambda>obj curr_dims max_dims st. OutOfFuel)"
| "PyArray_DiscoverDTypeAndShape_Recursive (Suc n) env fixed_DType requested_descr =
     discover_node (PyArray_DiscoverDTypeAndShape_Recursive n env fixed_DType requested_descr)
       env fixed_DType requested_descr"

subsection \<open>The top-level discovery function\<close>

text \<open>The \<^verbatim>\<open>fail:\<close> block, run on the variable \<^verbatim>\<open>coercion_cache\<close> as it is then.\<close>

definition discover_fail :: "'o dstate \<Rightarrow> (int \<times> 'o dstate) run" where
  "discover_fail st =
     (case read_cell st (coercion_cache st) of
        None \<Rightarrow> Undefined
      | Some p \<Rightarrow>
          run_bind (npy_free_coercion_cache p (heap st))
            (\<lambda>h. run_bind (write_cell (st\<lparr>heap := h\<rparr>) (coercion_cache st) None)
                    (\<lambda>st1. Returns (-1, st1\<lparr>out_descr := None\<rparr>))))"

text \<open>The end of the function, from the test of \<^verbatim>\<open>requested_descr\<close> on.\<close>

definition discover_finish ::
  "'o capi \<Rightarrow> pytype option \<Rightarrow> descr option \<Rightarrow> int \<Rightarrow> 'o dstate \<Rightarrow> (int \<times> 'o dstate) run" where
  "discover_finish env fixed_DType requested_descr ndim st =
     (case requested_descr of
        Some r \<Rightarrow> Returns (ndim, st\<lparr>out_descr := Some r\<rparr>)
      | None \<Rightarrow>
          if out_descr st = None then
            (case fixed_DType of
               Some F \<Rightarrow>
                 (case default_descr (DTypeMeta env F) of
                    None \<Rightarrow> Returns (ndim, st\<lparr>out_descr := Some (singleton (DTypeMeta env F))\<rparr>)
                  | Some (Inr d) \<Rightarrow> Returns (ndim, st\<lparr>out_descr := Some d\<rparr>)
                  | Some (Inl e) \<Rightarrow> discover_fail (st\<lparr>exc := Some e\<rparr>))
             | None \<Rightarrow>
                 Returns (ndim, st\<lparr>out_descr := Some (PyArray_DescrFromType env NPY_DEFAULT_TYPE)\<rparr>))
          else Returns (ndim, st))"

definition initial_flags :: "descr option \<Rightarrow> dflags" where
  "initial_flags requested_descr =
     (case requested_descr of
        None \<Rightarrow> 0
      | Some r \<Rightarrow>
          if type_num r = NPY_STRING \<and> type_char r = CHR ''c'' then
            DISCOVER_STRINGS_AS_SEQUENCES
          else if type_num r = NPY_VOID \<and> names_or_subarray r then
            DISCOVER_TUPLES_AS_ELEMENTS
          else 0)"

definition ragged_message :: string where
  "ragged_message = ''setting an array element with a sequence''"

text \<open>
  The state in which the recursion starts. \<open>st0\<close> is the memory at the call: the
  caller's shape array (of \<^verbatim>\<open>NPY_MAXDIMS\<close> entries in the source, with any
  contents), the nodes allocated so far, the registry. \<^verbatim>\<open>*out_descr\<close> and
  \<^verbatim>\<open>*coercion_cache\<close> are set to \<^verbatim>\<open>NULL\<close>, the first \<open>max_dims\<close> entries of
  the shape array to -1, and the flags according to the requested descriptor.
\<close>

definition discover_init :: "'o dstate \<Rightarrow> int \<Rightarrow> descr option \<Rightarrow> 'o dstate" where
  "discover_init st0 max_dims requested_descr =
     st0\<lparr>out_descr := None, caller_cache := None, coercion_cache := CallerCache,
         out_shape := replicate (nat max_dims) (-1) @ drop (nat max_dims) (out_shape st0),
         flags := initial_flags requested_descr\<rparr>"

text \<open>The test made after the recursion: the input is taken to be ragged.\<close>

definition found_ragged :: "dflags \<Rightarrow> int \<Rightarrow> int \<Rightarrow> bool" where
  "found_ragged fl ndim max_dims \<longleftrightarrow>
     flag_set fl IS_RAGGED_ARRAY \<or> (flag_set fl REACHED_MAXDIMS \<and> ndim < max_dims)"

text \<open>
  The part of \<^verbatim>\<open>PyArray_DiscoverDTypeAndShape\<close> after the recursive call, which
  has returned \<open>ndim\<close>.
\<close>

definition discover_result ::
  "'o capi \<Rightarrow> pytype option \<Rightarrow> descr option \<Rightarrow> int \<Rightarrow> int \<Rightarrow> 'o dstate
     \<Rightarrow> (int \<times> 'o dstate) run" where
  "discover_result env fixed_DType requested_descr max_dims ndim st1 =
     (if ndim < 0 then discover_fail st1
      else if found_ragged (flags st1) ndim max_dims then
        (case fixed_DType of
           None \<Rightarrow>
             (case import_VisibleDeprecationWarning env of
                Some e \<Rightarrow> discover_fail (st1\<lparr>exc := Some e\<rparr>)
              | None \<Rightarrow>
                  (case PyErr_WarnEx env of
                     Some e \<Rightarrow>
                       discover_fail (st1\<lparr>exc := Some e, warnings := warnings st1 + 1\<rparr>)
                   | None \<Rightarrow>
                       discover_finish env fixed_DType requested_descr ndim
                         (st1\<lparr>warnings := warnings st1 + 1,
                             out_descr := Some (PyArray_DescrFromType env NPY_OBJECT)\<rparr>)))
         | Some F \<Rightarrow>
             if dt_type_num (DTypeMeta env F) \<noteq> NPY_OBJECT then
               discover_fail (st1\<lparr>exc := Some (ValueError ragged_message)\<rparr>)
             else discover_finish env fixed_DType requested_descr ndim st1)
      else discover_finish env fixed_DType requested_descr ndim st1)"

text \<open>
  \<^verbatim>\<open>PyArray_DiscoverDTypeAndShape\<close>. Writing more entries of the shape array than
  it has is undefined.
\<close>

definition PyArray_DiscoverDTypeAndShape ::
  "nat \<Rightarrow> 'o capi \<Rightarrow> 'o \<Rightarrow> int \<Rightarrow> pytype option \<Rightarrow> descr option \<Rightarrow> 'o dstate
     \<Rightarrow> (int \<times> 'o dstate) run" where
  "PyArray_DiscoverDTypeAndShape fuel env obj max_dims fixed_DType requested_descr st0 =
     (if max_dims > int (length (out_shape st0)) then Undefined
      else
        run_bind (PyArray_DiscoverDTypeAndShape_Recursive fuel env fixed_DType
                    requested_descr obj 0 max_dims
                    (discover_init st0 max_dims requested_descr))
          (\<lambda>(ndim, st1). discover_result env fixed_DType requested_descr max_dims ndim st1))"

subsection \<open>A concrete environment\<close>

text \<open>
  A small universe of Python values and the DType classes of the built-in types,
  on which the functions above can be run. \<open>PyMapping\<close> is an object that passes
  \<^verbatim>\<open>PySequence_Check\<close> and raises \<^verbatim>\<open>KeyError\<close> when iterated,
  \<open>PyBroken\<close> one that raises another exception.
\<close>

datatype pyval =
    PyInt int | PyFloat | PyDatetime | PyStr string
  | PyList "pyval list" | PyTuple "pyval list"
  | PyNdarray descr "int list" "pyval list"
  | PyMapping | PyBroken

definition PyLong_Type :: pytype where "PyLong_Type = 3"
definition PyFloat_Type :: pytype where "PyFloat_Type = 4"
definition PyUnicode_Type :: pytype where "PyUnicode_Type = 5"
definition Mapping_Type :: pytype where "Mapping_Type = 6"
definition Broken_Type :: pytype where "Broken_Type = 7"
definition Datetime_Type :: pytype where "Datetime_Type = 8"

definition Int64DType :: pytype where "Int64DType = 10"
definition Float64DType :: pytype where "Float64DType = 11"
definition ObjectDType :: pytype where "ObjectDType = 12"
definition UnicodeDType :: pytype where "UnicodeDType = 13"
definition StringDType :: pytype where "StringDType = 14"
definition DatetimeDType :: pytype where "DatetimeDType = 15"
definition ByteDType :: pytype where "ByteDType = 16"

definition int64_descr :: descr where
  "int64_descr = Descr Int64DType (NPY_OTHER 7) CHR ''l'' False 8"
definition float64_descr :: descr where
  "float64_descr = Descr Float64DType NPY_DOUBLE CHR ''d'' False 8"
definition object_descr :: descr where
  "object_descr = Descr ObjectDType NPY_OBJECT CHR ''O'' False 8"
definition unicode_descr :: "nat \<Rightarrow> descr" where
  "unicode_descr n = Descr UnicodeDType NPY_UNICODE CHR ''U'' False (4 * n)"
definition string_descr :: "nat \<Rightarrow> descr" where
  "string_descr n = Descr StringDType NPY_STRING CHR ''S'' False n"
definition datetime_descr :: descr where
  "datetime_descr = Descr DatetimeDType (NPY_OTHER 21) CHR ''M'' False 8"
definition byte_descr :: descr where
  "byte_descr = Descr ByteDType NPY_BYTE CHR ''b'' False 1"

definition py_type_of :: "pyval \<Rightarrow> pytype" where
  "py_type_of v =
     (case v of
        PyInt _ \<Rightarrow> PyLong_Type | PyFloat \<Rightarrow> PyFloat_Type | PyDatetime \<Rightarrow> Datetime_Type
      | PyStr _ \<Rightarrow> PyUnicode_Type | PyList _ \<Rightarrow> PyList_Type | PyTuple _ \<Rightarrow> PyTuple_Type
      | PyNdarray _ _ _ \<Rightarrow> PyArray_Type | PyMapping \<Rightarrow> Mapping_Type
      | PyBroken \<Rightarrow> Broken_Type)"

definition builtin_known_scalar :: "pyval \<Rightarrow> bool" where
  "builtin_known_scalar v =
     (case v of PyInt _ \<Rightarrow> True | PyFloat \<Rightarrow> True | PyStr _ \<Rightarrow> True | _ \<Rightarrow> False)"

definition simple_dtype :: "pytype \<Rightarrow> descr \<Rightarrow> pyval dtypemeta" where
  "simple_dtype scalar d =
     \<lparr>scalar_type = scalar, is_known_scalar = Some builtin_known_scalar,
      is_parametric = False, legacy = True, dt_type_num = type_num d, singleton = d,
      default_descr = Some (Inr d), discover_descr_from_pyobject = (\<lambda>v. DescrOk d)\<rparr>"

definition flexible_dtype :: "pytype \<Rightarrow> (nat \<Rightarrow> descr) \<Rightarrow> pyval dtypemeta" where
  "flexible_dtype scalar mk =
     \<lparr>scalar_type = scalar, is_known_scalar = Some builtin_known_scalar,
      is_parametric = True, legacy = True, dt_type_num = type_num (mk 0), singleton = mk 0,
      default_descr = Some (Inr (mk 1)),
      discover_descr_from_pyobject =
        (\<lambda>v. case v of PyStr s \<Rightarrow> DescrOk (mk (length s)) | _ \<Rightarrow> DescrNotImplemented)\<rparr>"

definition np_DTypeMeta :: "pytype \<Rightarrow> pyval dtypemeta" where
  "np_DTypeMeta D =
     (if D = Int64DType then simple_dtype PyLong_Type int64_descr
      else if D = Float64DType then simple_dtype PyFloat_Type float64_descr
      else if D = UnicodeDType then flexible_dtype PyUnicode_Type unicode_descr
      else if D = StringDType then flexible_dtype 9 string_descr
      else if D = DatetimeDType then simple_dtype Datetime_Type datetime_descr
      else if D = ByteDType then simple_dtype 9 byte_descr
      else simple_dtype 9 object_descr)"

definition np_PromoteTypes :: "descr \<Rightarrow> descr \<Rightarrow> pyexc + descr" where
  "np_PromoteTypes a b =
     (if a = b then Inr a
      else if type_num a = NPY_OBJECT \<or> type_num b = NPY_OBJECT then Inr object_descr
      else if {NPY_DTYPE a, NPY_DTYPE b} = {Int64DType, Float64DType} then Inr float64_descr
      else if NPY_DTYPE a = UnicodeDType \<and> NPY_DTYPE b = UnicodeDType then
        Inr (if elsize a < elsize b then b else a)
      else Inl (TypeError ''invalid type promotion''))"

definition np_env :: "pyval capi" where
  "np_env =
     \<lparr>Py_TYPE = py_type_of,
      PyBytes_Size = (\<lambda>v. None),
      PyUnicode_GetLength = (\<lambda>v. case v of PyStr s \<Rightarrow> Some (int (length s)) | _ \<Rightarrow> None),
      PyTuple_Check = (\<lambda>v. case v of PyTuple _ \<Rightarrow> True | _ \<Rightarrow> False),
      PySequence_Check =
        (\<lambda>v. case v of PyList _ \<Rightarrow> True | PyTuple _ \<Rightarrow> True | PyStr _ \<Rightarrow> True
              | PyMapping \<Rightarrow> True | PyBroken \<Rightarrow> True | _ \<Rightarrow> False),
      PySequence_Size =
        (\<lambda>v. case v of PyList xs \<Rightarrow> Inr (int (length xs)) | PyTuple xs \<Rightarrow> Inr (int (length xs))
              | PyStr s \<Rightarrow> Inr (int (length s)) | PyMapping \<Rightarrow> Inr 0 | PyBroken \<Rightarrow> Inr 1
              | _ \<Rightarrow> Inl (TypeError ''object has no len()'')),
      PySequence_Fast =
        (\<lambda>v. case v of PyList xs \<Rightarrow> Inr (v, xs) | PyTuple xs \<Rightarrow> Inr (v, xs)
              | PyStr s \<Rightarrow> Inr (PyList (map (\<lambda>c. PyStr [c]) s), map (\<lambda>c. PyStr [c]) s)
              | PyMapping \<Rightarrow> Inl KeyError | PyBroken \<Rightarrow> Inl OtherError
              | _ \<Rightarrow> Inl (TypeError ''Could not convert object to sequence'')),
      PyArray_Check = (\<lambda>v. case v of PyNdarray _ _ _ \<Rightarrow> True | _ \<Rightarrow> False),
      array_from_array_like = (\<lambda>v r. ArrNotImplemented),
      PyArray_NDIM = (\<lambda>v. case v of PyNdarray _ shape _ \<Rightarrow> int (length shape) | _ \<Rightarrow> 0),
      PyArray_SHAPE = (\<lambda>v. case v of PyNdarray _ shape _ \<Rightarrow> shape | _ \<Rightarrow> []),
      PyArray_DESCR = (\<lambda>v. case v of PyNdarray d _ _ \<Rightarrow> d | _ \<Rightarrow> object_descr),
      PyArray_IterNew = (\<lambda>v. case v of PyNdarray _ _ elems \<Rightarrow> Inr elems | _ \<Rightarrow> Inl OtherError),
      PyArray_IsScalar_Generic = (\<lambda>v. False),
      PyArray_DescrFromScalar = (\<lambda>v. Inl OtherError),
      array_find_python_scalar_type =
        (\<lambda>v. case v of PyInt _ \<Rightarrow> Some int64_descr | PyFloat \<Rightarrow> Some float64_descr
              | _ \<Rightarrow> None),
      PyArray_DescrFromType =
        (\<lambda>t. case t of NPY_OBJECT \<Rightarrow> object_descr | NPY_DOUBLE \<Rightarrow> float64_descr
              | NPY_UNICODE \<Rightarrow> unicode_descr 0 | NPY_STRING \<Rightarrow> string_descr 0
              | NPY_BYTE \<Rightarrow> byte_descr | _ \<Rightarrow> object_descr),
      PyObject_IsInstance = (\<lambda>d D. NPY_DTYPE d = D),
      PyArray_AdaptFlexibleDType =
        (\<lambda>d flex. Inr (Descr (NPY_DTYPE flex) (type_num flex) (type_char flex) False (elsize d))),
      PyArray_PromoteTypes = np_PromoteTypes,
      DTypeMeta = np_DTypeMeta,
      weakref_alive = (\<lambda>D. D \<noteq> 99),
      PyArray_malloc_ok = (\<lambda>k. True),
      import_VisibleDeprecationWarning = None,
      PyErr_WarnEx = None\<rparr>"

definition np_registry :: registry where
  "np_registry =
     (prime_global_pytype_to_type_dict Map.empty)
       (PyLong_Type \<mapsto> RegWeakref Int64DType, PyFloat_Type \<mapsto> RegWeakref Float64DType,
        PyUnicode_Type \<mapsto> RegWeakref UnicodeDType, Datetime_Type \<mapsto> RegWeakref DatetimeDType)"

text \<open>The memory before a call: a shape array of 32 entries with stale contents.\<close>

definition fresh_state :: "pyval dstate" where
  "fresh_state =
     \<lparr>out_descr = None, out_shape = replicate 32 7, flags = 0, heap = [],
      caller_cache = None, coercion_cache = CallerCache, registry = np_registry,
      exc = None, warnings = 0, promotions = 0\<rparr>"

text \<open>What a caller sees after a call: the returned \<^verbatim>\<open>int\<close>, the first entries of the
  shape array, the descriptor, its cache pointer, the exception, and the counts.\<close>

definition observe ::
  "(int \<times> 'o dstate) run \<Rightarrow> (int \<times> int list \<times> descr option \<times> nat option \<times> pyexc option \<times> nat \<times> nat) option" where
  "observe r =
     (case r of
        Returns (ndim, st) \<Rightarrow>
          Some (ndim, take (nat ndim) (out_shape st), out_descr st, caller_cache st, exc st,
                warnings st, live_nodes (heap st))
      | _ \<Rightarrow> None)"

subsection \<open>What a discovery step may change\<close>

text \<open>
  \<open>tail_ok st\<close>: the variable \<^verbatim>\<open>coercion_cache\<close> points to a live cell that holds
  \<^verbatim>\<open>NULL\<close> (the end of the list).
\<close>

definition tail_ok :: "'o dstate \<Rightarrow> bool" where
  "tail_ok st \<longleftrightarrow> read_cell st (coercion_cache st) = Some None"

text \<open>
  \<open>frame promote st st'\<close> relates the state before a step to the state after it:
  no warning is issued, \<^verbatim>\<open>PyArray_PromoteTypes\<close> is called only if \<open>promote\<close>,
  no flag is cleared, the shape array keeps its length and every size recorded in
  it, and the end of the cache list stays well formed.
\<close>

definition frame :: "bool \<Rightarrow> 'o dstate \<Rightarrow> 'o dstate \<Rightarrow> bool" where
  "frame promote st st' \<longleftrightarrow>
     warnings st' = warnings st \<and>
     (\<not> promote \<longrightarrow> promotions st' = promotions st) \<and>
     (\<forall>n. bit (flags st) n \<longrightarrow> bit (flags st') n) \<and>
     length (out_shape st') = length (out_shape st) \<and>
     (\<forall>j < length (out_shape st). out_shape st ! j \<noteq> -1 \<longrightarrow> out_shape st' ! j = out_shape st ! j) \<and>
     (tail_ok st \<longrightarrow> tail_ok st')"

text \<open>
  What the source takes for granted of the environment: an array has as many shape
  entries as dimensions, and a DType class that is not parametric has a
  \<^verbatim>\<open>default_descr\<close> slot (it is called without a test).
\<close>

definition wf_capi :: "'o capi \<Rightarrow> bool" where
  "wf_capi env \<longleftrightarrow>
     (\<forall>a. 0 \<le> PyArray_NDIM env a \<and> int (length (PyArray_SHAPE env a)) = PyArray_NDIM env a) \<and>
     (\<forall>D. \<not> is_parametric (DTypeMeta env D) \<longrightarrow> default_descr (DTypeMeta env D) \<noteq> None)"

subsection \<open>Nested lists of integers and their shape\<close>


fun nesting_shape :: "nat \<Rightarrow> pyval \<Rightarrow> nat list option" where
  "nesting_shape 0 (PyList xs) = Some []"
| "nesting_shape (Suc K) (PyList []) = Some [0]"
| "nesting_shape (Suc K) (PyList (x # rest)) =
     (case nesting_shape K x of
        None \<Rightarrow> None
      | Some d \<Rightarrow>
          if \<forall>y \<in> set rest. nesting_shape K y = Some d then Some (Suc (length rest) # d)
          else None)"
| "nesting_shape M v = Some []"

text \<open>
  The two flags that decide whether the input is taken to be ragged, and the part of
  the state the traversal of a nested list relies on: the end of the cache list is
  well formed, the registry is the one of the concrete environment, and the shape
  array has \<open>L\<close> entries.
\<close>

definition rag :: "'o dstate \<Rightarrow> bool" where
  "rag st \<longleftrightarrow> flag_set (flags st) IS_RAGGED_ARRAY"

definition rch :: "'o dstate \<Rightarrow> bool" where
  "rch st \<longleftrightarrow> flag_set (flags st) REACHED_MAXDIMS"

definition good :: "nat \<Rightarrow> pyval dstate \<Rightarrow> bool" where
  "good L st \<longleftrightarrow> tail_ok st \<and> registry st = np_registry \<and> length (out_shape st) = L"

definition fixed_ok :: "pytype option \<Rightarrow> bool" where
  "fixed_ok F \<longleftrightarrow> F = None \<or> F = Some Int64DType"

text \<open>
  The state of the traversal of a nested list, seen from a node at depth \<open>c\<close> with
  the running limit \<open>m\<close>. \<open>known sh c m d\<close>: an earlier branch has fixed the
  dimensions from \<open>c\<close> on to \<open>d\<close>, ending at the limit \<open>m\<close> (a dimension of length 0
  can only be the last one). \<open>fresh sh c M\<close>: no dimension from \<open>c\<close> to the original
  limit \<open>M\<close> has been recorded yet. \<open>traversal_ok\<close> says what a call at such a node
  returns: in the first case the limit and the shape are unchanged and nothing is
  reported exactly if the node has the shape \<open>d\<close>; in the second the node's shape is
  recorded if it has one; in all other cases the raggedness test of the top-level
  function will hold.
\<close>

definition known :: "int list \<Rightarrow> int \<Rightarrow> int \<Rightarrow> nat list \<Rightarrow> bool" where
  "known sh c m d \<longleftrightarrow>
     m = c + int (length d) \<and> (\<forall>i < length d. sh ! (nat c + i) = int (d ! i)) \<and>
     0 \<notin> set (butlast d)"



section \<open>Properties\<close>

subsection \<open>Facts about \<^verbatim>\<open>update_shape\<close>\<close>

lemma shape_at_Some:
  "shape_at xs i = Some v \<longleftrightarrow> 0 \<le> i \<and> i < int (length xs) \<and> v = xs ! nat i"
  by (auto simp: shape_at_def)

lemma update_shape_loop_done:
  "\<not> i < n \<Longrightarrow> update_shape_loop i c n ns sq (s, m, sh) = Returns (s, m, sh)"
  by (simp add: update_shape_loop.simps)

lemma update_shape_loop_unset:
  "i < n \<Longrightarrow> shape_at sh (c + i) = Some (-1) \<Longrightarrow> shape_at ns i = Some nd \<Longrightarrow>
   update_shape_loop i c n ns sq (s, m, sh) =
   update_shape_loop (i + 1) c n ns sq (s, m, sh[nat (c + i) := nd])"
  by (subst update_shape_loop.simps) simp

lemma update_shape_loop_same:
  "i < n \<Longrightarrow> shape_at sh (c + i) = Some cd \<Longrightarrow> cd \<noteq> -1 \<Longrightarrow> shape_at ns i = Some cd \<Longrightarrow>
   update_shape_loop i c n ns sq (s, m, sh) = update_shape_loop (i + 1) c n ns sq (s, m, sh)"
  by (subst update_shape_loop.simps) simp

lemma update_shape_loop_conflict:
  "i < n \<Longrightarrow> shape_at sh (c + i) = Some cd \<Longrightarrow> cd \<noteq> -1 \<Longrightarrow> shape_at ns i = Some nd \<Longrightarrow>
   nd \<noteq> cd \<Longrightarrow>
   update_shape_loop i c n ns sq (s, m, sh) =
   Returns (-1, if \<not> sq then m - (n + i) else c, sh)"
  by (subst update_shape_loop.simps) simp

lemma update_shape_loop_reads:
  assumes "update_shape_loop i c n ns sq (s, m, sh) = Returns r" and "i < n"
  obtains cd nd where "shape_at sh (c + i) = Some cd" and "shape_at ns i = Some nd"
  using assms by (subst (asm) update_shape_loop.simps) (auto split: option.splits)

lemma update_shape_loop_keeps:
  "update_shape_loop i c n ns sq (s, m, sh) = Returns (s', m', sh') \<Longrightarrow>
   length sh' = length sh \<and> (\<forall>j < length sh. sh ! j \<noteq> -1 \<longrightarrow> sh' ! j = sh ! j)"
proof (induction i c n ns sq "(s, m, sh)" arbitrary: s m sh rule: update_shape_loop.induct)
  case (1 i c n ns sq s m sh)
  show ?case
  proof (cases "i < n")
    case False
    with "1.prems" show ?thesis by (simp add: update_shape_loop_done)
  next
    case lt: True
    from "1.prems" lt obtain cd nd where
      cd: "shape_at sh (c + i) = Some cd" and nd: "shape_at ns i = Some nd"
      by (rule update_shape_loop_reads)
    consider (unset) "cd = -1" | (conflict) "cd \<noteq> -1" "nd \<noteq> cd" | (same) "cd \<noteq> -1" "nd = cd"
      by blast
    then show ?thesis
    proof cases
      case unset
      with lt cd nd "1.prems"
      have "update_shape_loop (i + 1) c n ns sq (s, m, sh[nat (c + i) := nd]) = Returns (s', m', sh')"
        by (simp add: update_shape_loop_unset)
      from "1.hyps"(1)[OF lt cd nd unset this]
      have len: "length sh' = length sh"
        and keep: "\<forall>j<length sh. sh[nat (c + i) := nd] ! j \<noteq> -1 \<longrightarrow> sh' ! j = sh[nat (c + i) := nd] ! j"
        by simp_all
      have "sh' ! j = sh ! j" if j: "j < length sh" "sh ! j \<noteq> -1" for j
      proof -
        from cd unset j have "j \<noteq> nat (c + i)" by (auto simp: shape_at_Some)
        with keep j show ?thesis by simp
      qed
      with len show ?thesis by simp
    next
      case conflict
      with lt cd nd "1.prems" show ?thesis by (simp add: update_shape_loop_conflict)
    next
      case same
      with lt cd nd "1.prems"
      have rec: "update_shape_loop (i + 1) c n ns sq (s, m, sh) = Returns (s', m', sh')"
        by (simp add: update_shape_loop_same)
      from same have "\<not> nd \<noteq> cd" by simp
      from "1.hyps"(2)[OF lt cd nd same(1) this rec] show ?thesis .
    qed
  qed
qed

lemma update_shape_loop_max:
  "update_shape_loop i c n ns sq (s, m, sh) = Returns (s', m', sh') \<Longrightarrow>
   0 \<le> i \<Longrightarrow> c + n \<le> m \<Longrightarrow>
   m' \<le> m \<and> (s' = s \<or> s' = -1) \<and> (m' \<noteq> m \<longrightarrow> s' = -1)"
proof (induction i c n ns sq "(s, m, sh)" arbitrary: s m sh rule: update_shape_loop.induct)
  case (1 i c n ns sq s m sh)
  show ?case
  proof (cases "i < n")
    case False
    with "1.prems" show ?thesis by (simp add: update_shape_loop_done)
  next
    case lt: True
    from "1.prems"(1) lt obtain cd nd where
      cd: "shape_at sh (c + i) = Some cd" and nd: "shape_at ns i = Some nd"
      by (rule update_shape_loop_reads)
    consider (unset) "cd = -1" | (conflict) "cd \<noteq> -1" "nd \<noteq> cd" | (same) "cd \<noteq> -1" "nd = cd"
      by blast
    then show ?thesis
    proof cases
      case unset
      with lt cd nd "1.prems"(1)
      have "update_shape_loop (i + 1) c n ns sq (s, m, sh[nat (c + i) := nd]) = Returns (s', m', sh')"
        by (simp add: update_shape_loop_unset)
      from "1.hyps"(1)[OF lt cd nd unset this _ "1.prems"(3)] "1.prems"(2)
      show ?thesis by simp
    next
      case conflict
      with lt cd nd "1.prems" show ?thesis
        by (auto simp: update_shape_loop_conflict split: if_splits)
    next
      case same
      with lt cd nd "1.prems"(1)
      have rec: "update_shape_loop (i + 1) c n ns sq (s, m, sh) = Returns (s', m', sh')"
        by (simp add: update_shape_loop_same)
      from same have "\<not> nd \<noteq> cd" by simp
      from "1.hyps"(2)[OF lt cd nd same(1) this rec _ "1.prems"(3)] "1.prems"(2)
      show ?thesis by simp
    qed
  qed
qed

lemma update_shape_loop_detects:
  "update_shape_loop i c n ns sq (s, m, sh) = Returns (s', m', sh') \<Longrightarrow>
   0 \<le> i \<Longrightarrow> 0 \<le> c \<Longrightarrow> c + n \<le> m \<Longrightarrow>
   (\<exists>k. i \<le> k \<and> k < n \<and> sh ! nat (c + k) \<noteq> -1 \<and> sh ! nat (c + k) \<noteq> ns ! nat k) \<Longrightarrow>
   s' = -1 \<and> m' < m"
proof (induction i c n ns sq "(s, m, sh)" arbitrary: s m sh rule: update_shape_loop.induct)
  case (1 i c n ns sq s m sh)
  from "1.prems"(5) obtain k where k: "i \<le> k" "k < n" "sh ! nat (c + k) \<noteq> -1"
      "sh ! nat (c + k) \<noteq> ns ! nat k" by blast
  then have lt: "i < n" by simp
  from "1.prems"(1) lt obtain cd nd where
    cd: "shape_at sh (c + i) = Some cd" and nd: "shape_at ns i = Some nd"
    by (rule update_shape_loop_reads)
  consider (unset) "cd = -1" | (conflict) "cd \<noteq> -1" "nd \<noteq> cd" | (same) "cd \<noteq> -1" "nd = cd"
    by blast
  then show ?case
  proof cases
    case unset
    with cd k have "k \<noteq> i" by (auto simp: shape_at_Some)
    with k have k': "i + 1 \<le> k" by simp
    from unset lt cd nd "1.prems"(1)
    have rec: "update_shape_loop (i + 1) c n ns sq (s, m, sh[nat (c + i) := nd]) = Returns (s', m', sh')"
      by (simp add: update_shape_loop_unset)
    have neq: "nat (c + k) \<noteq> nat (c + i)" using k' "1.prems"(2,3) by simp
    have "\<exists>k. i + 1 \<le> k \<and> k < n \<and> sh[nat (c + i) := nd] ! nat (c + k) \<noteq> -1 \<and>
            sh[nat (c + i) := nd] ! nat (c + k) \<noteq> ns ! nat k"
      using k k' neq by (intro exI[of _ k]) simp
    from "1.hyps"(1)[OF lt cd nd unset rec _ "1.prems"(3,4) this] "1.prems"(2)
    show ?thesis by simp
  next
    case conflict
    with lt cd nd "1.prems" show ?thesis
      by (auto simp: update_shape_loop_conflict split: if_splits)
  next
    case same
    with cd nd k have "k \<noteq> i" using "1.prems"(2,3) by (auto simp: shape_at_Some)
    with k have k': "i + 1 \<le> k" by simp
    from same lt cd nd "1.prems"(1)
    have rec: "update_shape_loop (i + 1) c n ns sq (s, m, sh) = Returns (s', m', sh')"
      by (simp add: update_shape_loop_same)
    have ex: "\<exists>k. i + 1 \<le> k \<and> k < n \<and> sh ! nat (c + k) \<noteq> -1 \<and> sh ! nat (c + k) \<noteq> ns ! nat k"
      using k k' by blast
    from same have "\<not> nd \<noteq> cd" by simp
    from "1.hyps"(2)[OF lt cd nd same(1) this rec _ "1.prems"(3,4) ex] "1.prems"(2)
    show ?thesis by simp
  qed
qed

text \<open>No access leaves the arrays when the depth is non-negative and both arrays are long enough.\<close>

lemma update_shape_loop_returns:
  "0 \<le> i \<Longrightarrow> 0 \<le> c \<Longrightarrow> c + n \<le> int (length sh) \<Longrightarrow> n \<le> int (length ns) \<Longrightarrow>
   \<exists>r. update_shape_loop i c n ns sq (s, m, sh) = Returns r"
proof (induction i c n ns sq "(s, m, sh)" arbitrary: s m sh rule: update_shape_loop.induct)
  case (1 i c n ns sq s m sh)
  show ?case
  proof (cases "i < n")
    case False
    then show ?thesis by (simp add: update_shape_loop_done)
  next
    case lt: True
    with "1.prems" have cd: "shape_at sh (c + i) = Some (sh ! nat (c + i))"
      and nd: "shape_at ns i = Some (ns ! nat i)"
      by (simp_all add: shape_at_def)
    consider (unset) "sh ! nat (c + i) = -1"
      | (conflict) "sh ! nat (c + i) \<noteq> -1" "ns ! nat i \<noteq> sh ! nat (c + i)"
      | (same) "sh ! nat (c + i) \<noteq> -1" "ns ! nat i = sh ! nat (c + i)"
      by blast
    then show ?thesis
    proof cases
      case unset
      from "1.hyps"(1)[OF lt cd nd unset] "1.prems" lt cd nd unset
      show ?thesis by (simp add: update_shape_loop_unset)
    next
      case conflict
      with lt cd nd show ?thesis by (simp add: update_shape_loop_conflict)
    next
      case same
      then have "\<not> ns ! nat i \<noteq> sh ! nat (c + i)" by simp
      from "1.hyps"(2)[OF lt cd nd same(1) this] "1.prems" lt cd nd same
      show ?thesis by (simp add: update_shape_loop_same)
    qed
  qed
qed

lemma update_shape_keeps:
  assumes "update_shape c m sh n ns sq = Returns (s', m', sh')"
  shows "length sh' = length sh \<and> (\<forall>j < length sh. sh ! j \<noteq> -1 \<longrightarrow> sh' ! j = sh ! j)"
  using assms unfolding update_shape_def
  by (auto split: if_splits option.splits dest!: update_shape_loop_keeps)

lemma update_shape_max:
  assumes "update_shape c m sh n ns sq = Returns (s', m', sh')"
  shows "m' \<le> m \<and> (s' = 0 \<or> s' = -1) \<and> (s' = 0 \<longrightarrow> c + n \<le> m') \<and>
         (sq \<and> s' = 0 \<longrightarrow> m' = m)"
proof -
  consider (over) "c + n > m" | (shrink) "\<not> c + n > m" "\<not> sq" "m \<noteq> c + n"
    | (plain) "\<not> c + n > m" "\<not> (\<not> sq \<and> m \<noteq> c + n)"
    by blast
  then show ?thesis
  proof cases
    case over
    with assms
    have "update_shape_loop 0 c (m - c) ns sq (-1, m, sh) = Returns (s', m', sh')"
      by (simp add: update_shape_def)
    from update_shape_loop_max[OF this] show ?thesis by auto
  next
    case shrink
    with assms obtain s0 :: int where s0: "s0 = 0 \<or> s0 = -1" and
      "update_shape_loop 0 c n ns sq (s0, c + n, sh) = Returns (s', m', sh')"
      by (auto simp: update_shape_def split: option.splits if_splits)
    from update_shape_loop_max[OF this(2)] s0 shrink show ?thesis by auto
  next
    case plain
    with assms
    have "update_shape_loop 0 c n ns sq (0, m, sh) = Returns (s', m', sh')"
      by (auto simp: update_shape_def)
    from update_shape_loop_max[OF this] plain show ?thesis by auto
  qed
qed

lemma update_shape_detects:
  assumes run: "update_shape c m sh n ns sq = Returns (s', m', sh')"
    and c: "0 \<le> c"
    and k: "0 \<le> k" "k < n" "c + k < m" "sh ! nat (c + k) \<noteq> -1" "sh ! nat (c + k) \<noteq> ns ! nat k"
  shows "s' = -1 \<and> m' < m"
proof -
  consider (over) "c + n > m" | (shrink) "\<not> c + n > m" "\<not> sq" "m \<noteq> c + n"
    | (plain) "\<not> c + n > m" "\<not> (\<not> sq \<and> m \<noteq> c + n)"
    by blast
  then show ?thesis
  proof cases
    case over
    with run
    have loop: "update_shape_loop 0 c (m - c) ns sq (-1, m, sh) = Returns (s', m', sh')"
      by (simp add: update_shape_def)
    have "\<exists>k. 0 \<le> k \<and> k < m - c \<and> sh ! nat (c + k) \<noteq> -1 \<and> sh ! nat (c + k) \<noteq> ns ! nat k"
      using k by (intro exI[of _ k]) simp
    from update_shape_loop_detects[OF loop _ c _ this] show ?thesis by simp
  next
    case shrink
    with run obtain s0 :: int where
      loop: "update_shape_loop 0 c n ns sq (s0, c + n, sh) = Returns (s', m', sh')"
      by (auto simp: update_shape_def split: option.splits)
    have "\<exists>k. 0 \<le> k \<and> k < n \<and> sh ! nat (c + k) \<noteq> -1 \<and> sh ! nat (c + k) \<noteq> ns ! nat k"
      using k by (intro exI[of _ k]) simp
    from update_shape_loop_detects[OF loop _ c _ this] shrink show ?thesis by simp
  next
    case plain
    with run
    have loop: "update_shape_loop 0 c n ns sq (0, m, sh) = Returns (s', m', sh')"
      by (auto simp: update_shape_def)
    have "\<exists>k. 0 \<le> k \<and> k < n \<and> sh ! nat (c + k) \<noteq> -1 \<and> sh ! nat (c + k) \<noteq> ns ! nat k"
      using k by (intro exI[of _ k]) simp
    from update_shape_loop_detects[OF loop _ c _ this] plain show ?thesis by simp
  qed
qed

lemma update_shape_returns:
  assumes "0 \<le> c" "m \<le> int (length sh)" "0 \<le> n" "n \<le> int (length ns)"
  shows "\<exists>r. update_shape c m sh n ns sq = Returns r"
proof -
  consider (over) "c + n > m" | (shrink) "\<not> c + n > m" "\<not> sq" "m \<noteq> c + n"
    | (plain) "\<not> c + n > m" "\<not> (\<not> sq \<and> m \<noteq> c + n)"
    by blast
  then show ?thesis
  proof cases
    case over
    with assms have "\<exists>r. update_shape_loop 0 c (m - c) ns sq (-1, m, sh) = Returns r"
      by (intro update_shape_loop_returns) simp_all
    with over show ?thesis by (simp add: update_shape_def)
  next
    case shrink
    with assms have at: "shape_at sh (c + n) = Some (sh ! nat (c + n))"
      by (simp add: shape_at_def)
    from assms shrink
    have "\<exists>r. update_shape_loop 0 c n ns sq
                 (if sh ! nat (c + n) \<ge> 0 then -1 else 0, c + n, sh) = Returns r"
      by (intro update_shape_loop_returns) simp_all
    with shrink at show ?thesis by (simp add: update_shape_def)
  next
    case plain
    with assms have "\<exists>r. update_shape_loop 0 c n ns sq (0, m, sh) = Returns r"
      by (intro update_shape_loop_returns) simp_all
    with plain show ?thesis by (auto simp: update_shape_def)
  qed
qed

lemma update_shape_scalar_returns:
  "\<exists>r. update_shape c m [] 0 [] False = Returns r" if "c = m" for c m :: int
  using that by (simp add: update_shape_def update_shape_loop_done)

subsection \<open>Every step of the discovery respects the frame\<close>

lemma frame_refl: "frame p st st"
  by (simp add: frame_def)

lemma frame_trans: "frame p st st1 \<Longrightarrow> frame p st1 st2 \<Longrightarrow> frame p st st2"
  by (simp add: frame_def)

lemma tail_ok_simps:
  "tail_ok (st\<lparr>exc := e\<rparr>) = tail_ok st"
  "tail_ok (st\<lparr>registry := d\<rparr>) = tail_ok st"
  "tail_ok (st\<lparr>flags := f\<rparr>) = tail_ok st"
  "tail_ok (st\<lparr>out_descr := od\<rparr>) = tail_ok st"
  "tail_ok (st\<lparr>out_shape := sh\<rparr>) = tail_ok st"
  "tail_ok (st\<lparr>promotions := k\<rparr>) = tail_ok st"
  "tail_ok (st\<lparr>warnings := w\<rparr>) = tail_ok st"
  by (simp_all add: tail_ok_def read_cell_def split: cell.splits)

lemma frame_exc: "frame p st st1 \<Longrightarrow> frame p st (st1\<lparr>exc := e\<rparr>)"
  by (simp add: frame_def tail_ok_simps)

lemma frame_registry: "frame p st st1 \<Longrightarrow> frame p st (st1\<lparr>registry := d\<rparr>)"
  by (simp add: frame_def tail_ok_simps)

lemma frame_descr: "frame p st st1 \<Longrightarrow> frame p st (st1\<lparr>out_descr := d\<rparr>)"
  by (simp add: frame_def tail_ok_simps)

lemma frame_flags: "frame p st st1 \<Longrightarrow> frame p st (st1\<lparr>flags := flags st1 OR f\<rparr>)"
  by (simp add: frame_def tail_ok_simps bit_or_iff)

lemma frame_shape:
  assumes "frame p st st1" and "update_shape c m (out_shape st1) n ns sq = Returns (s, m', sh)"
  shows "frame p st (st1\<lparr>out_shape := sh\<rparr>)"
  using assms(1) update_shape_keeps[OF assms(2)]
  by (simp add: frame_def tail_ok_simps)

lemma npy_new_coercion_cache_tail_ok:
  assumes "tail_ok st"
  shows "\<exists>r st'. npy_new_coercion_cache env a b sq st = Returns (r, st') \<and> tail_ok st'"
proof (cases "PyArray_malloc_ok env (length (heap st))")
  case False
  with assms show ?thesis
    by (simp add: npy_new_coercion_cache_def tail_ok_simps)
next
  case True
  show ?thesis
  proof (cases "coercion_cache st")
    case CallerCache
    with True show ?thesis
      by (simp add: npy_new_coercion_cache_def Let_def write_cell_def run_bind_def tail_ok_def
          read_cell_def)
  next
    case (NextOf x)
    with assms obtain n where "x < length (heap st)" "heap st ! x = Some n"
      by (auto simp: tail_ok_def read_cell_def split: if_splits option.splits)
    with True NextOf show ?thesis
      by (simp add: npy_new_coercion_cache_def Let_def write_cell_def run_bind_def tail_ok_def
          read_cell_def nth_append)
  qed
qed

lemma frame_cache:
  assumes "npy_new_coercion_cache env a b sq st = Returns (r, st')"
  shows "frame p st st'"
proof -
  have fields: "warnings st' = warnings st \<and> promotions st' = promotions st \<and>
                flags st' = flags st \<and> out_shape st' = out_shape st"
    using assms
    by (auto simp: npy_new_coercion_cache_def Let_def write_cell_def run_bind_def
        split: if_splits cell.splits option.splits)
  have "tail_ok st'" if "tail_ok st"
    using npy_new_coercion_cache_tail_ok[OF that, of env a b sq] assms by auto
  with fields show ?thesis by (simp add: frame_def)
qed

lemma frame_lookup:
  assumes "discover_dtype_from_pyobject env obj F st = (found, st')"
  shows "frame p st st'"
  using assms
  by (auto simp: discover_dtype_from_pyobject_def legacy_dtype_discovery_def Let_def
      intro!: frame_exc frame_registry frame_refl split: if_splits prod.splits sum.splits option.splits)

lemma frame_promotion:
  assumes "handle_promotion env descr R st = (r, st')"
  shows "frame (R = None) st st' \<and> r = 0"
  using assms
  by (auto simp: handle_promotion_def frame_def tail_ok_simps bit_or_iff
      split: if_splits option.splits sum.splits)

lemma frame_handle_scalar:
  assumes "handle_scalar env obj c m null F R D st = Returns (r, st')"
  shows "frame (R = None) st st' \<and> (r = -1 \<or> r \<le> m)"
proof -
  from assms obtain found where
    found: "find_scalar_descriptor env F D obj R = Returns found"
    by (auto simp: handle_scalar_def run_bind_def split: run.splits)
  show ?thesis
  proof (cases found)
    case (Inl e)
    with assms found show ?thesis
      by (auto simp: handle_scalar_def run_bind_def intro!: frame_exc frame_refl)
  next
    case (Inr descr)
    with assms found obtain s m1 sh where
      us: "update_shape c m (if null then [] else out_shape st) 0 [] False = Returns (s, m1, sh)"
      by (auto simp: handle_scalar_def run_bind_def split: run.splits)
    from update_shape_max[OF us] have m1: "m1 \<le> m" by simp
    define st1 where "st1 = (if null then st else st\<lparr>out_shape := sh\<rparr>)"
    have f1: "frame (R = None) st st1"
      using us by (auto simp: st1_def intro: frame_refl frame_shape[OF frame_refl])
    show ?thesis
    proof (cases "s < 0")
      case True
      with assms found Inr us
      have "st' = st1\<lparr>flags := flags st1 OR IS_RAGGED_ARRAY,
                      out_descr := Some (PyArray_DescrFromType env NPY_OBJECT)\<rparr>" and "r = m1"
        by (auto simp: handle_scalar_def run_bind_def st1_def Let_def)
      with f1 m1 show ?thesis by (auto intro!: frame_descr frame_flags)
    next
      case False
      obtain res st2 where hp: "handle_promotion env descr R st1 = (res, st2)"
        by (cases "handle_promotion env descr R st1")
      from frame_promotion[OF hp] have f2: "frame (R = None) st1 st2" and res: "res = 0" by simp_all
      from False assms found Inr us hp res have "st' = st2" "r = m1"
        by (auto simp: handle_scalar_def run_bind_def st1_def Let_def split: if_splits)
      with f1 f2 m1 show ?thesis by (auto intro: frame_trans)
    qed
  qed
qed

lemma frame_object_array_elements:
  "object_array_elements env F elems m st = Returns (r, st') \<Longrightarrow>
   frame True st st' \<and> (r = -1 \<or> r = m)"
proof (induction elems arbitrary: st)
  case Nil
  then show ?case by (simp add: frame_refl)
next
  case (Cons elem rest)
  obtain found st1 where lk: "discover_dtype_from_pyobject env elem F st = (found, st1)"
    by (cases "discover_dtype_from_pyobject env elem F st")
  define D where "D = (case found of LookupDType D \<Rightarrow> Some D | _ \<Rightarrow> None)"
  from Cons.prems lk obtain res st2 where
    hs: "handle_scalar env elem 0 0 True D None F st1 = Returns (res, st2)"
    by (auto simp: run_bind_def D_def split: run.splits)
  from frame_lookup[OF lk] have f1: "frame True st st1" .
  from frame_handle_scalar[OF hs] have f2: "frame True st1 st2" by simp
  show ?case
  proof (cases "res < 0")
    case True
    with Cons.prems lk hs have "st' = st2" "r = -1"
      by (auto simp: run_bind_def D_def)
    with f1 f2 show ?thesis by (auto intro: frame_trans)
  next
    case False
    with Cons.prems lk hs have "object_array_elements env F rest m st2 = Returns (r, st')"
      by (auto simp: run_bind_def D_def)
    from Cons.IH[OF this] f1 f2 show ?thesis by (auto intro: frame_trans)
  qed
qed

lemma frame_discover_array:
  assumes "discover_array env F R obj arr c m st = Returns (r, st')"
  shows "frame (R = None) st st' \<and> (r = -1 \<or> r \<le> m)"
proof -
  from assms obtain res st1 where
    nc: "npy_new_coercion_cache env obj arr False st = Returns (res, st1)"
    by (auto simp: discover_array_def run_bind_def split: run.splits)
  from frame_cache[OF nc] have f1: "frame (R = None) st st1" .
  show ?thesis
  proof (cases "res < 0")
    case True
    with assms nc f1 show ?thesis by (auto simp: discover_array_def run_bind_def)
  next
    case False
    with assms nc obtain s m1 sh where
      us: "update_shape c m (out_shape st1) (PyArray_NDIM env arr) (PyArray_SHAPE env arr) False
             = Returns (s, m1, sh)"
      by (auto simp: discover_array_def run_bind_def split: run.splits)
    from update_shape_max[OF us] have m1: "m1 \<le> m" by simp
    define st2 where "st2 = st1\<lparr>out_shape := sh\<rparr>"
    have f2: "frame (R = None) st st2"
      unfolding st2_def by (rule frame_shape[OF f1 us])
    note unfold = discover_array_def run_bind_def Let_def
    consider (ragged) "s < 0"
      | (objects) "\<not> s < 0" "type_num (PyArray_DESCR env arr) = NPY_OBJECT \<and> F \<noteq> None \<and>
                         is_parametric (DTypeMeta env (the F)) \<and> R = None"
      | (cast) "\<not> s < 0" "\<not> (type_num (PyArray_DESCR env arr) = NPY_OBJECT \<and> F \<noteq> None \<and>
                         is_parametric (DTypeMeta env (the F)) \<and> R = None)" "R = None"
      | (fixed) "\<not> s < 0" "R \<noteq> None"
      by blast
    then show ?thesis
    proof cases
      case ragged
      with assms nc False us
      have "r = m1" "st' = st2\<lparr>flags := flags st2 OR IS_RAGGED_ARRAY\<rparr>"
        by (simp_all add: unfold st2_def)
      with f2 m1 show ?thesis by (auto intro!: frame_flags)
    next
      case objects
      show ?thesis
      proof (cases "PyArray_IterNew env arr")
        case (Inl e)
        with assms nc False us objects
        have "r = -1" "st' = st2\<lparr>exc := Some e\<rparr>"
          by (simp_all add: unfold st2_def)
        with f2 show ?thesis by (auto intro!: frame_exc)
      next
        case (Inr elems)
        with assms nc False us objects
        have "object_array_elements env F elems m1 st2 = Returns (r, st')"
          by (simp add: unfold st2_def)
        from frame_object_array_elements[OF this] objects f2 m1 show ?thesis
          by (auto intro: frame_trans)
      qed
    next
      case cast
      with assms nc False us obtain cst where
        cd: "cast_descriptor_to_fixed_dtype env (PyArray_DESCR env arr) F = Returns cst"
        by (auto simp: unfold split: run.splits if_splits)
      show ?thesis
      proof (cases cst)
        case (Inl e)
        with assms nc False us cast cd
        have "r = -1" "st' = st2\<lparr>exc := Some e\<rparr>"
          by (auto simp: unfold st2_def split: if_splits)
        with f2 show ?thesis by (auto intro!: frame_exc)
      next
        case (Inr descr)
        obtain res3 st3 where hp: "handle_promotion env descr R st2 = (res3, st3)"
          by (cases "handle_promotion env descr R st2")
        from frame_promotion[OF hp] have f3: "frame (R = None) st2 st3" and res3: "res3 = 0"
          by simp_all
        from assms nc False us cast cd Inr hp res3
        have "r = m1" "st' = st3"
          by (auto simp: unfold st2_def split: if_splits)
        with f2 f3 m1 show ?thesis by (auto intro: frame_trans)
      qed
    next
      case fixed
      with assms nc False us
      have "r = m1" "st' = st2"
        by (auto simp: unfold st2_def split: if_splits)
      with f2 m1 show ?thesis by auto
    qed
  qed
qed

lemma frame_sequence_items:
  assumes rec: "\<And>item c m st r st'. recurse item c m st = Returns (r, st') \<Longrightarrow>
                  frame p st st' \<and> (r < 0 \<or> r \<le> m)"
  shows "sequence_items recurse items c m st = Returns (r, st') \<Longrightarrow>
         frame p st st' \<and> (r < 0 \<or> r \<le> m)"
proof (induction items arbitrary: m st)
  case Nil
  then show ?case by (simp add: frame_refl)
next
  case (Cons item rest)
  from Cons.prems obtain m1 st1 where
    first: "recurse item (c + 1) m st = Returns (m1, st1)"
    by (auto simp: run_bind_def split: run.splits)
  from rec[OF first] have f1: "frame p st st1" and m1: "m1 < 0 \<or> m1 \<le> m" by simp_all
  show ?case
  proof (cases "m1 < 0")
    case True
    with Cons.prems first f1 show ?thesis by (auto simp: run_bind_def)
  next
    case False
    with Cons.prems first have "sequence_items recurse rest c m1 st1 = Returns (r, st')"
      by (auto simp: run_bind_def)
    from Cons.IH[OF this] f1 m1 False show ?thesis by (auto intro: frame_trans)
  qed
qed

lemma frame_discover_sequence:
  assumes rec: "\<And>item c m st r st'. recurse item c m st = Returns (r, st') \<Longrightarrow>
                  frame (R = None) st st' \<and> (r < 0 \<or> r \<le> m)"
    and run: "discover_sequence recurse env F R obj c m st = Returns (r, st')"
  shows "frame (R = None) st st' \<and> (r < 0 \<or> r \<le> m)"
proof (cases "PySequence_Fast env obj")
  case (Inl e)
  show ?thesis
  proof (cases "e = KeyError")
    case True
    with run Inl
    have "handle_scalar env obj c m False F R None (st\<lparr>exc := None\<rparr>) = Returns (r, st')"
      by (simp add: discover_sequence_def)
    from frame_handle_scalar[OF this] frame_exc[OF frame_refl, of "R = None" st None]
    show ?thesis by (auto intro: frame_trans)
  next
    case False
    with run Inl show ?thesis
      by (auto simp: discover_sequence_def intro!: frame_exc frame_refl)
  qed
next
  case (Inr pair)
  obtain seq objects where pair: "pair = (seq, objects)" by (cases pair)
  from run Inr pair obtain res st1 where
    nc: "npy_new_coercion_cache env obj seq True st = Returns (res, st1)"
    by (auto simp: discover_sequence_def run_bind_def split: run.splits)
  from frame_cache[OF nc] have f1: "frame (R = None) st st1" .
  show ?thesis
  proof (cases "res < 0")
    case True
    with run Inr pair nc f1 show ?thesis by (auto simp: discover_sequence_def run_bind_def)
  next
    case False
    with run Inr pair nc obtain s m1 sh where
      us: "update_shape c m (out_shape st1) 1 [int (length objects)] True = Returns (s, m1, sh)"
      by (auto simp: discover_sequence_def run_bind_def Let_def split: run.splits)
    from update_shape_max[OF us] have m1: "m1 \<le> m" "s = 0 \<longrightarrow> c + 1 \<le> m1" by auto
    define st2 where "st2 = st1\<lparr>out_shape := sh\<rparr>"
    have f2: "frame (R = None) st st2"
      unfolding st2_def by (rule frame_shape[OF f1 us])
    note unfold = discover_sequence_def run_bind_def Let_def
    from update_shape_max[OF us] have s: "s = 0 \<or> s = -1" by simp
    consider (ragged) "s < 0" | (empty) "s = 0" "objects = []" | (items) "s = 0" "objects \<noteq> []"
      using s by auto
    then show ?thesis
    proof cases
      case ragged
      with run Inr pair nc False us
      have "r = m1" "st' = st2\<lparr>flags := flags st2 OR IS_RAGGED_ARRAY\<rparr>"
        by (simp_all add: unfold st2_def)
      with f2 m1 show ?thesis by (auto intro!: frame_flags)
    next
      case empty
      with run Inr pair nc False us
      have "r = c + 1" "st' = st2"
        by (simp_all add: unfold st2_def)
      with f2 m1 empty show ?thesis by auto
    next
      case items
      with run Inr pair nc False us
      have "sequence_items recurse objects c m1 st2 = Returns (r, st')"
        by (simp add: unfold st2_def)
      from frame_sequence_items[of recurse "R = None", OF rec this] f2 m1
      show ?thesis by (auto intro: frame_trans)
    qed
  qed
qed

lemma frame_discover_node:
  assumes rec: "\<And>item c m st r st'. recurse item c m st = Returns (r, st') \<Longrightarrow>
                  frame (R = None) st st' \<and> (r < 0 \<or> r \<le> m)"
    and run: "discover_node recurse env F R obj c m st = Returns (r, st')"
  shows "frame (R = None) st st' \<and> (r < 0 \<or> r \<le> m)"
proof (cases "flag_set (flags st) DISCOVER_STRINGS_AS_SEQUENCES \<and>
         ((case PyBytes_Size env obj of None \<Rightarrow> False | Some n \<Rightarrow> n \<noteq> 1) \<or>
          (case PyUnicode_GetLength env obj of None \<Rightarrow> False | Some n \<Rightarrow> n \<noteq> 1))")
  case True
  with run have "discover_sequence recurse env F R obj c m st = Returns (r, st')"
    by (simp add: discover_node_def)
  from frame_discover_sequence[OF rec this] show ?thesis .
next
  case noforce: False
  obtain found st1 where lk: "discover_dtype_from_pyobject env obj F st = (found, st1)"
    by (cases "discover_dtype_from_pyobject env obj F st")
  from frame_lookup[OF lk] have f1: "frame (R = None) st st1" .
  show ?thesis
  proof (cases found)
    case LookupNULL
    with run noforce lk f1 show ?thesis by (auto simp: discover_node_def)
  next
    case (LookupDType D)
    with run noforce lk
    have "handle_scalar env obj c m False F R (Some D) st1 = Returns (r, st')"
      by (simp add: discover_node_def)
    from frame_handle_scalar[OF this] f1 show ?thesis by (auto intro: frame_trans)
  next
    case LookupNone
    define al where "al = (if PyArray_Check env obj then Arr obj
                           else array_from_array_like env obj R)"
    show ?thesis
    proof (cases al)
      case (ArrError e)
      with run noforce lk LookupNone f1 show ?thesis
        by (auto simp: discover_node_def al_def intro!: frame_exc)
    next
      case (Arr arr)
      with run noforce lk LookupNone
      have "discover_array env F R obj arr c m st1 = Returns (r, st')"
        by (simp add: discover_node_def al_def)
      from frame_discover_array[OF this] f1 show ?thesis by (auto intro: frame_trans)
    next
      case ArrNotImplemented
      let ?is_seq =
        "if flag_set (flags st1) DISCOVER_TUPLES_AS_ELEMENTS \<and> PyTuple_Check env obj then False
         else (PySequence_Check env obj \<and>
               (case PySequence_Size env obj of Inl e \<Rightarrow> False | Inr n \<Rightarrow> n \<ge> 0))"
      note unfold = discover_node_def al_def Let_def
      show ?thesis
      proof (cases "c = m \<or> \<not> ?is_seq")
        case True
        with run noforce lk LookupNone ArrNotImplemented
        have "run_bind (handle_scalar env obj c m False F R None (st1\<lparr>exc := None\<rparr>))
                (\<lambda>(m1, st2).
                   Returns (m1, if ?is_seq then st2\<lparr>flags := flags st2 OR REACHED_MAXDIMS\<rparr>
                                else st2)) = Returns (r, st')"
          unfolding unfold by (simp split: if_splits)
        then obtain m1 st2 where
          hs: "handle_scalar env obj c m False F R None (st1\<lparr>exc := None\<rparr>) = Returns (m1, st2)"
          and res: "r = m1" "st' = (if ?is_seq then st2\<lparr>flags := flags st2 OR REACHED_MAXDIMS\<rparr>
                                    else st2)"
          by (auto simp: run_bind_def split: run.splits)
        from frame_handle_scalar[OF hs] have "frame (R = None) (st1\<lparr>exc := None\<rparr>) st2"
          and m1: "m1 = -1 \<or> m1 \<le> m" by simp_all
        with frame_exc[OF f1, of None] have f2: "frame (R = None) st st2"
          by (auto intro: frame_trans)
        from res have "st' = st2 \<or> st' = st2\<lparr>flags := flags st2 OR REACHED_MAXDIMS\<rparr>"
          by (simp split: if_splits)
        with f2 frame_flags[OF f2] res(1) m1 show ?thesis by auto
      next
        case False
        with run noforce lk LookupNone ArrNotImplemented
        have "discover_sequence recurse env F R obj c m st1 = Returns (r, st')"
          unfolding unfold by (simp split: if_splits)
        from frame_discover_sequence[OF rec this] f1 show ?thesis by (auto intro: frame_trans)
      qed
    qed
  qed
qed

lemma frame_Recursive:
  "PyArray_DiscoverDTypeAndShape_Recursive fuel env F R obj c m st = Returns (r, st') \<Longrightarrow>
   frame (R = None) st st' \<and> (r < 0 \<or> r \<le> m)"
proof (induction fuel arbitrary: obj c m st r st')
  case 0
  then show ?case by simp
next
  case (Suc n)
  from Suc.prems
  have "discover_node (PyArray_DiscoverDTypeAndShape_Recursive n env F R) env F R obj c m st
          = Returns (r, st')"
    by simp
  from frame_discover_node[OF _ this] Suc.IH show ?case by blast
qed

subsection \<open>Every call returns\<close>

lemma cast_descriptor_returns:
  "wf_capi env \<Longrightarrow> \<exists>x. cast_descriptor_to_fixed_dtype env descr F = Returns x"
  by (auto simp: cast_descriptor_to_fixed_dtype_def wf_capi_def split: option.splits)

lemma find_scalar_descriptor_returns:
  "wf_capi env \<Longrightarrow> \<exists>x. find_scalar_descriptor env F D obj R = Returns x"
  using cast_descriptor_returns[of env]
  by (auto simp: find_scalar_descriptor_def Let_def split: option.splits descr_result.splits)

lemma handle_scalar_returns:
  assumes "wf_capi env"
    and "if null then c = m else 0 \<le> c \<and> m \<le> int (length (out_shape st))"
  shows "\<exists>r st'. handle_scalar env obj c m null F R D st = Returns (r, st')"
proof -
  from find_scalar_descriptor_returns[OF assms(1)] obtain found where
    found: "find_scalar_descriptor env F D obj R = Returns found" by blast
  from assms(2) obtain s m1 sh where
    us: "update_shape c m (if null then [] else out_shape st) 0 [] False = Returns (s, m1, sh)"
    using update_shape_returns[of c m "out_shape st" 0 "[]" False]
      update_shape_scalar_returns[of c m]
    by (cases null) auto
  obtain res st2 where
    "handle_promotion env (projr found) R (if null then st else st\<lparr>out_shape := sh\<rparr>) = (res, st2)"
    by (cases "handle_promotion env (projr found) R (if null then st else st\<lparr>out_shape := sh\<rparr>)")
  with found us show ?thesis
    by (cases found) (auto simp: handle_scalar_def run_bind_def Let_def)
qed

lemma object_array_elements_returns:
  "wf_capi env \<Longrightarrow> \<exists>r st'. object_array_elements env F elems m st = Returns (r, st')"
proof (induction elems arbitrary: st)
  case Nil
  then show ?case by simp
next
  case (Cons elem rest)
  obtain found st1 where lk: "discover_dtype_from_pyobject env elem F st = (found, st1)"
    by (cases "discover_dtype_from_pyobject env elem F st")
  define D where "D = (case found of LookupDType D \<Rightarrow> Some D | _ \<Rightarrow> None)"
  from handle_scalar_returns[OF Cons.prems, of True 0 0] obtain res st2 where
    hs: "handle_scalar env elem 0 0 True D None F st1 = Returns (res, st2)"
    by fastforce
  from Cons.IH[OF Cons.prems, of st2] lk hs show ?case
    by (auto simp: run_bind_def D_def)
qed

lemma discover_array_returns:
  assumes wf: "wf_capi env" and c: "0 \<le> c" and m: "m \<le> int (length (out_shape st))"
    and tail: "tail_ok st"
  shows "\<exists>r st'. discover_array env F R obj arr c m st = Returns (r, st')"
proof -
  from npy_new_coercion_cache_tail_ok[OF tail, of env obj arr False] obtain res st1 where
    nc: "npy_new_coercion_cache env obj arr False st = Returns (res, st1)" by blast
  from frame_cache[OF nc, of True] have len: "length (out_shape st1) = length (out_shape st)"
    by (simp add: frame_def)
  from wf have "0 \<le> PyArray_NDIM env arr" "PyArray_NDIM env arr \<le> int (length (PyArray_SHAPE env arr))"
    by (simp_all add: wf_capi_def)
  with update_shape_returns[of c m "out_shape st1" "PyArray_NDIM env arr" "PyArray_SHAPE env arr" False]
    c m len
  obtain s m1 sh where
    us: "update_shape c m (out_shape st1) (PyArray_NDIM env arr) (PyArray_SHAPE env arr) False
           = Returns (s, m1, sh)"
    by auto
  obtain cst where cd: "cast_descriptor_to_fixed_dtype env (PyArray_DESCR env arr) F = Returns cst"
    using cast_descriptor_returns[OF wf] by blast
  obtain res3 st3 where
    "handle_promotion env (projr cst) R (st1\<lparr>out_shape := sh\<rparr>) = (res3, st3)"
    by (cases "handle_promotion env (projr cst) R (st1\<lparr>out_shape := sh\<rparr>)")
  with nc us cd object_array_elements_returns[OF wf, of F _ m1 "st1\<lparr>out_shape := sh\<rparr>"]
  show ?thesis
    by (cases cst) (auto simp: discover_array_def run_bind_def Let_def split: sum.splits)
qed

lemma sequence_items_returns:
  assumes ret: "\<And>item m st. m \<le> m0 \<Longrightarrow> tail_ok st \<Longrightarrow> length (out_shape st) = L \<Longrightarrow>
                  \<exists>r st'. recurse item (c + 1) m st = Returns (r, st')"
    and fr: "\<And>item c m st r st'. recurse item c m st = Returns (r, st') \<Longrightarrow>
                  frame p st st' \<and> (r < 0 \<or> r \<le> m)"
  shows "m \<le> m0 \<Longrightarrow> tail_ok st \<Longrightarrow> length (out_shape st) = L \<Longrightarrow>
         \<exists>r st'. sequence_items recurse items c m st = Returns (r, st')"
proof (induction items arbitrary: m st)
  case Nil
  then show ?case by simp
next
  case (Cons item rest)
  from ret[OF Cons.prems] obtain m1 st1 where
    first: "recurse item (c + 1) m st = Returns (m1, st1)" by blast
  from fr[OF first] Cons.prems have "m1 < 0 \<or> m1 \<le> m0" "tail_ok st1" "length (out_shape st1) = L"
    by (auto simp: frame_def)
  with Cons.IH[of m1 st1] first show ?case
    by (auto simp: run_bind_def)
qed

lemma discover_sequence_returns:
  assumes wf: "wf_capi (env :: 'o capi)" and c: "0 \<le> c" and m: "m \<le> int (length (out_shape st))"
    and tail: "tail_ok st"
    and ret: "\<And>item m' st'. m' \<le> m \<Longrightarrow> c + 1 \<le> m \<Longrightarrow> tail_ok st' \<Longrightarrow>
                  length (out_shape st') = length (out_shape st) \<Longrightarrow>
                  \<exists>r st''. recurse item (c + 1) m' st' = Returns (r, st'')"
    and fr: "\<And>item c m st r st'. recurse item c m st = Returns (r, st') \<Longrightarrow>
                  frame p st st' \<and> (r < 0 \<or> r \<le> m)"
  shows "\<exists>r st'. discover_sequence recurse env F R obj c m st = Returns (r, st')"
proof (cases "PySequence_Fast env obj")
  case (Inl e)
  from handle_scalar_returns[OF wf, of False c m "st\<lparr>exc := None\<rparr>" obj F R None] c m
  obtain r st' where
    "handle_scalar env obj c m False F R None (st\<lparr>exc := None\<rparr>) = Returns (r, st')"
    by auto
  with Inl show ?thesis by (auto simp: discover_sequence_def)
next
  case (Inr pair)
  obtain seq objects where pair: "pair = (seq, objects)" by (cases pair)
  from npy_new_coercion_cache_tail_ok[OF tail, of env obj seq True] obtain res st1 where
    nc: "npy_new_coercion_cache env obj seq True st = Returns (res, st1)"
    and tail1: "tail_ok st1" by blast
  from frame_cache[OF nc, of True] have len: "length (out_shape st1) = length (out_shape st)"
    by (simp add: frame_def)
  from update_shape_returns[of c m "out_shape st1" 1 "[int (length objects)]" True] c m len
  obtain s m1 sh where
    us: "update_shape c m (out_shape st1) 1 [int (length objects)] True = Returns (s, m1, sh)"
    by auto
  from update_shape_max[OF us] have m1: "m1 \<le> m" "s = 0 \<longrightarrow> c + 1 \<le> m1" "s = 0 \<or> s = -1"
    by auto
  from update_shape_keeps[OF us] len have len2: "length sh = length (out_shape st)" by simp
  show ?thesis
  proof (cases "s = 0 \<and> objects \<noteq> []")
    case False
    with Inr pair nc us m1(3) show ?thesis
      by (auto simp: discover_sequence_def run_bind_def Let_def)
  next
    case True
    with m1 have cm: "c + 1 \<le> m" by simp
    have "\<exists>r st'. sequence_items recurse objects c m1 (st1\<lparr>out_shape := sh\<rparr>) = Returns (r, st')"
    proof (rule sequence_items_returns[where ?m0.0 = m and L = "length (out_shape st)" and p = p])
      show "m1 \<le> m" by (rule m1(1))
      show "tail_ok (st1\<lparr>out_shape := sh\<rparr>)" using tail1 by (simp add: tail_ok_simps)
      show "length (out_shape (st1\<lparr>out_shape := sh\<rparr>)) = length (out_shape st)"
        using len2 by simp
    next
      fix item :: 'o and m' :: int and st' :: "'o dstate"
      assume "m' \<le> m" "tail_ok st'" "length (out_shape st') = length (out_shape st)"
      with cm show "\<exists>r st''. recurse item (c + 1) m' st' = Returns (r, st'')"
        by (intro ret)
    next
      fix item :: 'o and c m r :: int and st st' :: "'o dstate"
      assume "recurse item c m st = Returns (r, st')"
      then show "frame p st st' \<and> (r < 0 \<or> r \<le> m)" by (rule fr)
    qed
    with True Inr pair nc us show ?thesis
      by (auto simp: discover_sequence_def run_bind_def Let_def)
  qed
qed

lemma discover_node_returns:
  assumes wf: "wf_capi (env :: 'o capi)" and c: "0 \<le> c" and m: "m \<le> int (length (out_shape st))"
    and tail: "tail_ok st"
    and ret: "\<And>item m' st'. m' \<le> m \<Longrightarrow> c + 1 \<le> m \<Longrightarrow> tail_ok st' \<Longrightarrow>
                  length (out_shape st') = length (out_shape st) \<Longrightarrow>
                  \<exists>r st''. recurse item (c + 1) m' st' = Returns (r, st'')"
    and fr: "\<And>item c m st r st'. recurse item c m st = Returns (r, st') \<Longrightarrow>
                  frame p st st' \<and> (r < 0 \<or> r \<le> m)"
  shows "\<exists>r st'. discover_node recurse env F R obj c m st = Returns (r, st')"
proof -
  obtain found st1 where lk: "discover_dtype_from_pyobject env obj F st = (found, st1)"
    by (cases "discover_dtype_from_pyobject env obj F st")
  from frame_lookup[OF lk, of True] tail
  have st1: "tail_ok st1" "length (out_shape st1) = length (out_shape st)"
    by (simp_all add: frame_def)
  have seq: "\<exists>r st'. discover_sequence recurse env F R obj c m st2 = Returns (r, st')"
    if st2: "tail_ok st2" "length (out_shape st2) = length (out_shape st)" for st2
  proof (rule discover_sequence_returns[where p = p])
    show "wf_capi env" by (rule wf)
    show "0 \<le> c" by (rule c)
    show "m \<le> int (length (out_shape st2))" using m st2 by simp
    show "tail_ok st2" by (rule st2)
  next
    fix item :: 'o and m' :: int and st' :: "'o dstate"
    assume "m' \<le> m" "c + 1 \<le> m" "tail_ok st'"
      "length (out_shape st') = length (out_shape st2)"
    with st2 show "\<exists>r st''. recurse item (c + 1) m' st' = Returns (r, st'')"
      by (intro ret) simp_all
  next
    fix item :: 'o and c m r :: int and st st' :: "'o dstate"
    assume "recurse item c m st = Returns (r, st')"
    then show "frame p st st' \<and> (r < 0 \<or> r \<le> m)" by (rule fr)
  qed
  from seq[of st] tail have seq0:
    "\<exists>r st'. discover_sequence recurse env F R obj c m st = Returns (r, st')" by simp
  from seq[of st1] st1 have seq1:
    "\<exists>r st'. discover_sequence recurse env F R obj c m st1 = Returns (r, st')" by simp
  have arr: "\<exists>r st'. discover_array env F R obj a c m st1 = Returns (r, st')" for a
    using st1 m c by (intro discover_array_returns[OF wf]) auto
  have sc: "\<exists>r st'. handle_scalar env obj c m False F R D st2 = Returns (r, st')"
    if "length (out_shape st2) = length (out_shape st)" for D st2
    using that m c by (intro handle_scalar_returns[OF wf]) auto
  from sc[of st1] sc[of "st1\<lparr>exc := None\<rparr>" None] st1 obtain r1 st2 where
    hs: "handle_scalar env obj c m False F R None (st1\<lparr>exc := None\<rparr>) = Returns (r1, st2)"
    by auto
  from seq0 seq1 arr sc[of st1] st1 lk hs show ?thesis
    by (auto simp: discover_node_def Let_def run_bind_def split: lookup.splits arraylike.splits)
qed

lemma Recursive_returns:
  assumes wf: "wf_capi (env :: 'o capi)"
  shows "0 \<le> c \<Longrightarrow> m \<le> int (length (out_shape st)) \<Longrightarrow> tail_ok st \<Longrightarrow> nat (m - c) < fuel \<Longrightarrow>
         \<exists>r st'. PyArray_DiscoverDTypeAndShape_Recursive fuel env F R obj c m st = Returns (r, st')"
proof (induction fuel arbitrary: obj c m st)
  case 0
  then show ?case by simp
next
  case (Suc n)
  have "\<exists>r st'. discover_node (PyArray_DiscoverDTypeAndShape_Recursive n env F R) env F R obj c m st
          = Returns (r, st')"
  proof (rule discover_node_returns[where p = "R = None"])
    show "wf_capi env" by (rule wf)
    show "0 \<le> c" "m \<le> int (length (out_shape st))" "tail_ok st" by (rule Suc.prems)+
  next
    fix item :: 'o and m' :: int and st' :: "'o dstate"
    assume "m' \<le> m" "c + 1 \<le> m" "tail_ok st'" "length (out_shape st') = length (out_shape st)"
    with Suc.prems
    show "\<exists>r st''. PyArray_DiscoverDTypeAndShape_Recursive n env F R item (c + 1) m' st'
            = Returns (r, st'')"
      by (intro Suc.IH) auto
  next
    fix item :: 'o and c m r :: int and st st' :: "'o dstate"
    assume "PyArray_DiscoverDTypeAndShape_Recursive n env F R item c m st = Returns (r, st')"
    then show "frame (R = None) st st' \<and> (r < 0 \<or> r \<le> m)" by (rule frame_Recursive)
  qed
  then show ?case by simp
qed

subsection \<open>The top-level function\<close>

lemma discover_init_tail_ok: "tail_ok (discover_init st0 max_dims R)"
  by (simp add: discover_init_def tail_ok_def read_cell_def)






subsection \<open>Facts about the concrete environment\<close>

lemma wf_np_env: "wf_capi np_env"
proof -
  have "0 \<le> PyArray_NDIM np_env a \<and> int (length (PyArray_SHAPE np_env a)) = PyArray_NDIM np_env a"
    for a
    by (cases a) (simp_all add: np_env_def)
  moreover have "default_descr (DTypeMeta np_env D) \<noteq> None" for D
    by (simp add: np_env_def np_DTypeMeta_def simple_dtype_def flexible_dtype_def)
  ultimately show ?thesis by (simp add: wf_capi_def)
qed

subsection \<open>Flags\<close>

lemma flag_set_bits: "flag_set fl f \<longleftrightarrow> (\<exists>n. bit fl n \<and> bit f n)"
proof
  assume "flag_set fl f"
  then have "fl AND f \<noteq> 0" by (simp add: flag_set_def)
  then obtain n where "bit (fl AND f) n"
    by (auto simp: bit_eq_iff)
  then show "\<exists>n. bit fl n \<and> bit f n" by (auto simp: bit_and_iff)
next
  assume "\<exists>n. bit fl n \<and> bit f n"
  then obtain n where "bit (fl AND f) n" by (auto simp: bit_and_iff)
  then have "fl AND f \<noteq> 0" by auto
  then show "flag_set fl f" by (simp add: flag_set_def)
qed

lemma flag_set_mono:
  "flag_set fl f \<Longrightarrow> (\<forall>n. bit fl n \<longrightarrow> bit fl' n) \<Longrightarrow> flag_set fl' f"
  by (auto simp: flag_set_bits)

lemma flag_set_or: "flag_set (fl OR f) g \<longleftrightarrow> flag_set fl g \<or> flag_set f g"
  by (auto simp: flag_set_bits bit_or_iff)

lemma flag_set_self:
  "flag_set IS_RAGGED_ARRAY IS_RAGGED_ARRAY" "flag_set REACHED_MAXDIMS REACHED_MAXDIMS"
  "flag_set PROMOTION_FAILED PROMOTION_FAILED"
  by (simp_all add: flag_set_def IS_RAGGED_ARRAY_def REACHED_MAXDIMS_def PROMOTION_FAILED_def)

subsection \<open>The exits of the top-level function\<close>






subsection \<open>The recursion depth is enough\<close>

lemma run_bind_fuel:
  "m \<noteq> OutOfFuel \<Longrightarrow> (\<And>a. m = Returns a \<Longrightarrow> f a \<noteq> OutOfFuel) \<Longrightarrow> run_bind m f \<noteq> OutOfFuel"
  by (cases m) (simp_all add: run_bind_def)


















subsection \<open>Lists and integers in the concrete environment\<close>

lemma registry_same: "registry st = d \<Longrightarrow> st\<lparr>registry := d\<rparr> = st"
  by (cases st) auto

lemma np_registry_entries:
  "np_registry PyLong_Type = Some (RegWeakref Int64DType)" "np_registry PyList_Type = Some RegNone"
  by (simp_all add: np_registry_def prime_global_pytype_to_type_dict_def PyLong_Type_def
      PyFloat_Type_def PyUnicode_Type_def Datetime_Type_def PyList_Type_def PyTuple_Type_def
      PyArray_Type_def)



lemma np_list_lookup:
  assumes "registry st = np_registry" "fixed_ok F"
  shows "discover_dtype_from_pyobject np_env (PyList xs) F st = (LookupNone, st)"
proof -
  have "fixed_DType_claims np_env (PyList xs) F = False"
    using assms(2)
    by (auto simp: fixed_ok_def fixed_DType_claims_def np_env_def np_DTypeMeta_def
        simple_dtype_def py_type_of_def builtin_known_scalar_def PyList_Type_def PyLong_Type_def)
  with assms(1) show ?thesis
    by (simp add: discover_dtype_from_pyobject_def discover_dtype_from_pytype_def
        np_registry_entries np_env_def py_type_of_def registry_same)
qed


subsection \<open>Closed forms of \<^verbatim>\<open>update_shape\<close> for a scalar and for a sequence\<close>


lemma update_shape_sequence:
  "update_shape c m sh 1 [k] True =
     (if c + 1 > m then Returns (-1, m, sh)
      else
        (case shape_at sh c of
           None \<Rightarrow> Undefined
         | Some cd \<Rightarrow>
             if cd = -1 then Returns (0, m, sh[nat c := k])
             else if k \<noteq> cd then Returns (-1, c, sh)
             else Returns (0, m, sh)))"
proof (cases "c + 1 > m")
  case True
  then show ?thesis by (simp add: update_shape_def update_shape_loop_done)
next
  case False
  have k: "shape_at [k] 0 = Some k" by (simp add: shape_at_def)
  show ?thesis
  proof (cases "shape_at sh c")
    case None
    with False show ?thesis
      by (simp add: update_shape_def) (subst update_shape_loop.simps, simp)
  next
    case (Some cd)
    consider (unset) "cd = -1" | (conflict) "cd \<noteq> -1" "k \<noteq> cd" | (same) "cd \<noteq> -1" "k = cd"
      by blast
    then show ?thesis
    proof cases
      case unset
      with False Some k show ?thesis
        using update_shape_loop_unset[of 0 1 sh c "[k]" k True 0 m]
        by (simp add: update_shape_def update_shape_loop_done)
    next
      case conflict
      with False Some k show ?thesis
        using update_shape_loop_conflict[of 0 1 sh c cd "[k]" k True 0 m]
        by (simp add: update_shape_def)
    next
      case same
      with False Some k show ?thesis
        using update_shape_loop_same[of 0 1 sh c cd "[k]" True 0 m]
        by (simp add: update_shape_def update_shape_loop_done)
    qed
  qed
qed

lemma flag_cross:
  "\<not> flag_set IS_RAGGED_ARRAY REACHED_MAXDIMS" "\<not> flag_set REACHED_MAXDIMS IS_RAGGED_ARRAY"
  "\<not> flag_set PROMOTION_FAILED IS_RAGGED_ARRAY" "\<not> flag_set PROMOTION_FAILED REACHED_MAXDIMS"
  by (simp_all add: flag_set_def IS_RAGGED_ARRAY_def REACHED_MAXDIMS_def PROMOTION_FAILED_def)

lemmas flag_simps = rag_def rch_def flag_set_or flag_set_self flag_cross




subsection \<open>What the recursive function does at an integer and at a list\<close>

lemma np_new_cache:
  assumes "good L st"
  shows "\<exists>st'. npy_new_coercion_cache np_env a b sq st = Returns (0, st') \<and> good L st' \<and>
           out_shape st' = out_shape st \<and> flags st' = flags st"
proof -
  have ok: "PyArray_malloc_ok np_env (length (heap st))" by (simp add: np_env_def)
  from assms have tail: "tail_ok st" by (simp add: good_def)
  from npy_new_coercion_cache_tail_ok[OF tail, of np_env a b sq] obtain r st' where
    nc: "npy_new_coercion_cache np_env a b sq st = Returns (r, st')" and t': "tail_ok st'"
    by blast
  from nc ok have "r = 0 \<and> out_shape st' = out_shape st \<and> flags st' = flags st \<and>
                   registry st' = registry st"
    by (auto simp: npy_new_coercion_cache_def Let_def write_cell_def run_bind_def
        split: if_splits cell.splits option.splits)
  with nc t' assms show ?thesis by (simp add: good_def)
qed


lemma list_facts:
  "PyBytes_Size np_env (PyList xs) = None" "PyUnicode_GetLength np_env (PyList xs) = None"
  "\<not> PyArray_Check np_env (PyList xs)"
  "array_from_array_like np_env (PyList xs) None = ArrNotImplemented"
  "PySequence_Check np_env (PyList xs)" "PySequence_Size np_env (PyList xs) = Inr (int (length xs))"
  "\<not> PyTuple_Check np_env (PyList xs)" "PySequence_Fast np_env (PyList xs) = Inr (PyList xs, xs)"
  by (simp_all add: np_env_def)


lemma node_list_sequence:
  assumes good: "good L st" and F: "fixed_ok F" and level: "c \<noteq> m"
  shows "discover_node recurse np_env F None (PyList xs) c m st =
         discover_sequence recurse np_env F None (PyList xs) c m st"
proof -
  from good have reg: "registry st = np_registry" by (simp add: good_def)
  from level show ?thesis
    by (simp add: discover_node_def list_facts np_list_lookup[OF reg F])
qed

lemma node_list_deep:
  assumes good: "good L st" and F: "fixed_ok F" and c: "0 \<le> c" and m: "m \<le> int L"
    and deep: "c > m"
  shows "\<exists>st'. discover_node recurse np_env F None (PyList xs) c m st = Returns (m, st') \<and>
           rag st' \<and> good L st'"
proof -
  from np_new_cache[OF good, of "PyList xs" "PyList xs" True] obtain st1 where
    nc: "npy_new_coercion_cache np_env (PyList xs) (PyList xs) True st = Returns (0, st1)"
    and st1: "good L st1" by blast
  from deep nc have "discover_sequence recurse np_env F None (PyList xs) c m st =
    Returns (m, st1\<lparr>out_shape := out_shape st1, flags := flags st1 OR IS_RAGGED_ARRAY\<rparr>)"
    by (simp add: discover_sequence_def list_facts run_bind_def update_shape_sequence)
  moreover have "good L (st1\<lparr>out_shape := out_shape st1, flags := flags st1 OR IS_RAGGED_ARRAY\<rparr>)"
    using st1 by (simp add: good_def tail_ok_simps)
  ultimately show ?thesis
    using node_list_sequence[OF good F, of c m recurse xs] deep
    by (simp add: flag_simps)
qed



subsection \<open>The traversal of a nested list finds its shape\<close>








lemma nesting_shape_list_None:
  "nesting_shape (Suc K) (PyList xs) = None \<longleftrightarrow>
     xs \<noteq> [] \<and> \<not> (\<exists>d'. \<forall>y \<in> set xs. nesting_shape K y = Some d')"
  by (cases xs) (auto split: option.splits if_splits)






subsection \<open>Discovery on nested lists of integers\<close>






subsection \<open>The registry\<close>

text \<open>
  C4. Registering a scalar type that is already mapped to another class is meant to
  fail with the error "Can only map one python type to DType". The membership test
  looks the DType class up among the keys, which are scalar types, so it does not
  fire: with \<^verbatim>\<open>int\<close> mapped to the 64-bit integer class, registering the 64-bit
  float class for \<^verbatim>\<open>int\<close> succeeds and replaces the mapping.
\<close>

theorem register_replaces_existing_mapping:
  "np_registry PyLong_Type = Some (RegWeakref Int64DType) \<and>
   (case PyArray_MapPyTypeToDType (\<lambda>t. True) (Some np_registry) Float64DType PyLong_Type False of
      Inl e \<Rightarrow> False
    | Inr d \<Rightarrow> d PyLong_Type = Some (RegWeakref Float64DType))"
  by (simp add: PyArray_MapPyTypeToDType_def np_registry_def prime_global_pytype_to_type_dict_def
      PyLong_Type_def PyFloat_Type_def PyUnicode_Type_def Datetime_Type_def Float64DType_def
      PyList_Type_def PyTuple_Type_def PyArray_Type_def dom_def)

text \<open>
  C5. When the class registered for a scalar type has been collected, the lookup of
  that scalar type deletes the entry (and no other) and does not return the class:
  it returns \<^verbatim>\<open>Py_None\<close>. The next lookup finds no entry and returns \<^verbatim>\<open>NULL\<close>.
  For an object whose type has no entry, and which the fixed DType does not claim,
  \<^verbatim>\<open>discover_dtype_from_pyobject\<close> is the legacy discovery.
\<close>

theorem stale_entry_removed_and_unknown_falls_through:
  "(d pytype = Some (RegWeakref D) \<and> \<not> alive D \<longrightarrow>
      (case discover_dtype_from_pytype alive d pytype of
         (found, d') \<Rightarrow>
           found = LookupNone \<and> found \<noteq> LookupDType D \<and> d' pytype = None \<and>
           (\<forall>k. k \<noteq> pytype \<longrightarrow> d' k = d k) \<and>
           discover_dtype_from_pytype alive d' pytype = (LookupNULL, d'))) \<and>
   (registry st (Py_TYPE env obj) = None \<and> \<not> fixed_DType_claims env obj fixed_DType \<longrightarrow>
      discover_dtype_from_pyobject env obj fixed_DType st = legacy_dtype_discovery env obj st)"
  by (simp add: discover_dtype_from_pytype_def discover_dtype_from_pyobject_def)

theorem stale_entry_removed_and_unknown_falls_through_witness:
  "(np_registry(Mapping_Type \<mapsto> RegWeakref 99)) Mapping_Type = Some (RegWeakref 99) \<and>
   \<not> weakref_alive np_env 99 \<and>
   fst (discover_dtype_from_pytype (weakref_alive np_env)
          (np_registry(Mapping_Type \<mapsto> RegWeakref 99)) Mapping_Type) = LookupNone \<and>
   snd (discover_dtype_from_pytype (weakref_alive np_env)
          (np_registry(Mapping_Type \<mapsto> RegWeakref 99)) Mapping_Type) Mapping_Type = None \<and>
   registry fresh_state (Py_TYPE np_env PyMapping) = None \<and>
   \<not> fixed_DType_claims np_env PyMapping (Some Int64DType) \<and>
   discover_dtype_from_pyobject np_env PyMapping (Some Int64DType) fresh_state =
     legacy_dtype_discovery np_env PyMapping fresh_state"
proof -
  have alive: "\<not> weakref_alive np_env 99"
    by (simp add: np_env_def)
  have entry: "(np_registry(Mapping_Type \<mapsto> RegWeakref 99)) Mapping_Type = Some (RegWeakref 99)"
    by simp
  have unknown: "registry fresh_state (Py_TYPE np_env PyMapping) = None"
    by (simp add: fresh_state_def np_env_def py_type_of_def np_registry_def
        prime_global_pytype_to_type_dict_def Mapping_Type_def PyLong_Type_def PyFloat_Type_def
        PyUnicode_Type_def Datetime_Type_def PyList_Type_def PyTuple_Type_def PyArray_Type_def)
  have unclaimed: "\<not> fixed_DType_claims np_env PyMapping (Some Int64DType)"
    by (simp add: fixed_DType_claims_def np_env_def np_DTypeMeta_def simple_dtype_def
        builtin_known_scalar_def py_type_of_def Mapping_Type_def PyLong_Type_def)
  from stale_entry_removed_and_unknown_falls_through
         [of "np_registry(Mapping_Type \<mapsto> RegWeakref 99)" Mapping_Type 99
             "weakref_alive np_env" fresh_state np_env PyMapping "Some Int64DType"]
       alive entry unknown unclaimed
  show ?thesis
    by (auto split: prod.splits)
qed

subsection \<open>Release of the cache on failure\<close>

text \<open>
  C8. A failing call is meant to free the cache and to hand back a null cache pointer
  and a null descriptor. The recursion moves the variable \<^verbatim>\<open>coercion_cache\<close> to the
  \<^verbatim>\<open>next\<close> field of the last node, so the \<^verbatim>\<open>fail:\<close> block frees the (empty)
  list after the last node and clears that field. For the ragged input
  \<open>[[1, 2], [3]]\<close> under a fixed 64-bit integer class the call returns -1 with
  the error "setting an array element with a sequence" and a null descriptor, while
  the caller's pointer still points to the first node and all three nodes are live.
\<close>

theorem failed_call_keeps_cache:
  "observe (PyArray_DiscoverDTypeAndShape 40 np_env
      (PyList [PyList [PyInt 1, PyInt 2], PyList [PyInt 3]]) 32 (Some Int64DType) None
      fresh_state)
   = Some (- 1, [], None, Some 0, Some (ValueError ragged_message), 0, 3)"
  by code_simp

subsection \<open>Bounded recursion\<close>



subsection \<open>Recorded sizes\<close>

text \<open>
  C9. At the start of a discovery call every entry of the shape array that the call
  may use (the first \<open>max_dims\<close>) is -1, that is, unset. \<^verbatim>\<open>update_shape\<close> keeps
  the length of the array and every entry that is not -1; if a recorded size differs
  from the new size of the same dimension, it reports raggedness (-1) and lowers
  \<open>max_ndim\<close>. The recursive function changes the array through \<^verbatim>\<open>update_shape\<close>
  only, so a size recorded at any point of a call is still there at its end.
\<close>

theorem recorded_sizes_are_kept:
  "(\<forall>i. 0 \<le> i \<and> i < max_dims \<and> max_dims \<le> int (length (out_shape st0)) \<longrightarrow>
        out_shape (discover_init st0 max_dims requested_descr) ! nat i = -1) \<and>
   (update_shape curr_ndim max_ndim out_shape0 new_ndim new_shape is_seq
      = Returns (success, max_ndim', out_shape') \<longrightarrow>
      length out_shape' = length out_shape0 \<and>
      (\<forall>j < length out_shape0. out_shape0 ! j \<noteq> -1 \<longrightarrow> out_shape' ! j = out_shape0 ! j) \<and>
      (0 \<le> curr_ndim \<and>
       (\<exists>k. 0 \<le> k \<and> k < new_ndim \<and> curr_ndim + k < max_ndim \<and>
            out_shape0 ! nat (curr_ndim + k) \<noteq> -1 \<and>
            out_shape0 ! nat (curr_ndim + k) \<noteq> new_shape ! nat k) \<longrightarrow>
       success = -1 \<and> max_ndim' < max_ndim)) \<and>
   (PyArray_DiscoverDTypeAndShape_Recursive fuel env fixed_DType requested_descr obj
      curr_dims max_dims st = Returns (r, st') \<longrightarrow>
      length (out_shape st') = length (out_shape st) \<and>
      (\<forall>j < length (out_shape st). out_shape st ! j \<noteq> -1 \<longrightarrow>
           out_shape st' ! j = out_shape st ! j))"
proof (intro conjI impI allI)
  fix i
  assume "0 \<le> i \<and> i < max_dims \<and> max_dims \<le> int (length (out_shape st0))"
  then show "out_shape (discover_init st0 max_dims requested_descr) ! nat i = -1"
    by (simp add: discover_init_def nth_append)
next
  assume us: "update_shape curr_ndim max_ndim out_shape0 new_ndim new_shape is_seq
                = Returns (success, max_ndim', out_shape')"
  from update_shape_keeps[OF us]
  show "length out_shape' = length out_shape0" by simp
  fix j
  assume "j < length out_shape0" "out_shape0 ! j \<noteq> -1"
  with update_shape_keeps[OF us] show "out_shape' ! j = out_shape0 ! j" by simp
next
  assume us: "update_shape curr_ndim max_ndim out_shape0 new_ndim new_shape is_seq
                = Returns (success, max_ndim', out_shape')"
    and conflict: "0 \<le> curr_ndim \<and>
       (\<exists>k. 0 \<le> k \<and> k < new_ndim \<and> curr_ndim + k < max_ndim \<and>
            out_shape0 ! nat (curr_ndim + k) \<noteq> -1 \<and>
            out_shape0 ! nat (curr_ndim + k) \<noteq> new_shape ! nat k)"
  then obtain k where "0 \<le> curr_ndim" "0 \<le> k" "k < new_ndim" "curr_ndim + k < max_ndim"
    "out_shape0 ! nat (curr_ndim + k) \<noteq> -1"
    "out_shape0 ! nat (curr_ndim + k) \<noteq> new_shape ! nat k"
    by blast
  from update_shape_detects[OF us this]
  show "success = -1" "max_ndim' < max_ndim" by simp_all
next
  assume run: "PyArray_DiscoverDTypeAndShape_Recursive fuel env fixed_DType requested_descr obj
                 curr_dims max_dims st = Returns (r, st')"
  from frame_Recursive[OF run]
  show "length (out_shape st') = length (out_shape st)" by (simp add: frame_def)
  fix j
  assume "j < length (out_shape st)" "out_shape st ! j \<noteq> -1"
  with frame_Recursive[OF run] show "out_shape st' ! j = out_shape st ! j"
    by (simp add: frame_def)
qed

theorem recorded_sizes_are_kept_witness:
  "out_shape (discover_init fresh_state 2 None) ! 0 = -1 \<and>
   out_shape (discover_init fresh_state 2 None) ! 1 = -1 \<and>
   update_shape 1 2 [2, 2] 1 [1] True = Returns (-1, 1, [2, 2]) \<and>
   (\<exists>r st'. PyArray_DiscoverDTypeAndShape_Recursive 3 np_env None None
               (PyList [PyInt 1, PyInt 2]) 1 2
               ((discover_init fresh_state 32 None)\<lparr>out_shape := 2 # replicate 31 (-1)\<rparr>)
               = Returns (r, st') \<and>
             length (out_shape st') = 32 \<and> out_shape st' ! 0 = 2)"
proof -
  let ?st = "(discover_init fresh_state 32 None)\<lparr>out_shape := 2 # replicate 31 (-1)\<rparr>"
  let ?obj = "PyList [PyInt 1, PyInt 2]"
  have len: "length (out_shape ?st) = 32" "(2::int) \<le> int (length (out_shape fresh_state))"
    "out_shape ?st ! 0 = 2"
    by (simp_all add: fresh_state_def)
  have tail: "tail_ok ?st"
    using discover_init_tail_ok[of fresh_state 32 None] by (simp add: tail_ok_simps)
  have us: "update_shape 1 2 [2, 2] 1 [1] True = Returns (-1, 1, [2, 2])"
    by code_simp
  from Recursive_returns[OF wf_np_env, of 1 2 ?st 3 None None ?obj] len tail
  obtain r st' where run:
    "PyArray_DiscoverDTypeAndShape_Recursive 3 np_env None None ?obj 1 2 ?st = Returns (r, st')"
    by auto
  note init = recorded_sizes_are_kept
            [where ?st0.0 = fresh_state and max_dims = 2 and requested_descr = None
               and curr_ndim = 1 and max_ndim = 2 and ?out_shape0.0 = "[2, 2]" and new_ndim = 1
               and new_shape = "[1]" and is_seq = True and success = "-1" and max_ndim' = 1
               and out_shape' = "[2, 2]", THEN conjunct1, rule_format]
  from init[of 0] init[of 1] len(2)
  have first: "out_shape (discover_init fresh_state 2 None) ! 0 = -1"
    "out_shape (discover_init fresh_state 2 None) ! 1 = -1"
    by simp_all
  note keep = recorded_sizes_are_kept
         [where fuel = 3 and env = np_env and fixed_DType = None and requested_descr = None
            and obj = ?obj and curr_dims = 1 and max_dims = 2 and st = ?st and r = r
            and st' = st', THEN conjunct2, THEN conjunct2, THEN mp, OF run]
  from keep[THEN conjunct1] keep[THEN conjunct2, rule_format, of 0] len
  have "length (out_shape st') = 32 \<and> out_shape st' ! 0 = 2"
    by simp
  with first us run show ?thesis by blast
qed

subsection \<open>Promotion\<close>

text \<open>
  C6. \<^verbatim>\<open>handle_promotion\<close> never reports an error: it returns 0 and leaves the shape
  array and the cache alone. When \<^verbatim>\<open>PyArray_PromoteTypes\<close> fails, the running
  descriptor becomes the object descriptor, the error is cleared and the flag
  \<^verbatim>\<open>PROMOTION_FAILED\<close> is set. No later step of the recursion clears a flag, so the
  flag is still set when the recursion returns.
\<close>

theorem failed_promotion_falls_back_to_object:
  "(case handle_promotion env descr requested_descr st of
      (res, st') \<Rightarrow>
        res = 0 \<and> out_shape st' = out_shape st \<and> heap st' = heap st \<and>
        caller_cache st' = caller_cache st \<and> coercion_cache st' = coercion_cache st) \<and>
   (requested_descr = None \<and> out_descr st = Some old \<and>
    PyArray_PromoteTypes env old descr = Inl e \<longrightarrow>
      (case handle_promotion env descr requested_descr st of
         (res, st') \<Rightarrow>
           out_descr st' = Some (PyArray_DescrFromType env NPY_OBJECT) \<and>
           flag_set (flags st') PROMOTION_FAILED \<and> exc st' = None)) \<and>
   (flag_set (flags st) PROMOTION_FAILED \<and>
    PyArray_DiscoverDTypeAndShape_Recursive fuel env fixed_DType requested_descr obj
      curr_dims max_dims st = Returns (r, st1) \<longrightarrow>
      flag_set (flags st1) PROMOTION_FAILED)"
proof (intro conjI impI)
  show "case handle_promotion env descr requested_descr st of
      (res, st') \<Rightarrow>
        res = 0 \<and> out_shape st' = out_shape st \<and> heap st' = heap st \<and>
        caller_cache st' = caller_cache st \<and> coercion_cache st' = coercion_cache st"
    by (simp add: handle_promotion_def split: option.splits sum.splits)
next
  assume "requested_descr = None \<and> out_descr st = Some old \<and>
    PyArray_PromoteTypes env old descr = Inl e"
  then show "case handle_promotion env descr requested_descr st of
         (res, st') \<Rightarrow>
           out_descr st' = Some (PyArray_DescrFromType env NPY_OBJECT) \<and>
           flag_set (flags st') PROMOTION_FAILED \<and> exc st' = None"
    by (simp add: handle_promotion_def flag_set_or flag_set_self)
next
  assume a: "flag_set (flags st) PROMOTION_FAILED \<and>
    PyArray_DiscoverDTypeAndShape_Recursive fuel env fixed_DType requested_descr obj
      curr_dims max_dims st = Returns (r, st1)"
  from a[THEN conjunct2, THEN frame_Recursive]
  have "frame (requested_descr = None) st st1" by simp
  with a show "flag_set (flags st1) PROMOTION_FAILED"
    by (auto simp: frame_def intro: flag_set_mono)
qed

theorem failed_promotion_falls_back_to_object_witness:
  "PyArray_PromoteTypes np_env int64_descr datetime_descr = Inl (TypeError ''invalid type promotion'') \<and>
   observe (PyArray_DiscoverDTypeAndShape_Recursive 3 np_env None None
      (PyList [PyInt 1, PyDatetime, PyInt 2]) 0 32 (discover_init fresh_state 32 None))
     = Some (1, [3], Some object_descr, Some 0, None, 0, 1) \<and>
   (case handle_promotion np_env datetime_descr None
           ((discover_init fresh_state 32 None)\<lparr>out_descr := Some int64_descr\<rparr>) of
      (res, st') \<Rightarrow>
        res = 0 \<and> out_descr st' = Some (PyArray_DescrFromType np_env NPY_OBJECT) \<and>
        flag_set (flags st') PROMOTION_FAILED \<and>
        (\<exists>r st1. PyArray_DiscoverDTypeAndShape_Recursive 33 np_env None None
                    (PyList [PyInt 2]) 0 32 st' = Returns (r, st1) \<and>
                  flag_set (flags st1) PROMOTION_FAILED))"
proof -
  let ?st = "(discover_init fresh_state 32 None)\<lparr>out_descr := Some int64_descr\<rparr>"
  have fails: "PyArray_PromoteTypes np_env int64_descr datetime_descr
                 = Inl (TypeError ''invalid type promotion'')"
    by code_simp
  have run: "observe (PyArray_DiscoverDTypeAndShape_Recursive 3 np_env None None
      (PyList [PyInt 1, PyDatetime, PyInt 2]) 0 32 (discover_init fresh_state 32 None))
     = Some (1, [3], Some object_descr, Some 0, None, 0, 1)"
    by code_simp
  obtain res st' where hp: "handle_promotion np_env datetime_descr None ?st = (res, st')"
    by (cases "handle_promotion np_env datetime_descr None ?st")
  have old: "out_descr ?st = Some int64_descr" by simp
  from failed_promotion_falls_back_to_object
         [where env = np_env and descr = datetime_descr and requested_descr = None and st = ?st
            and old = int64_descr and e = "TypeError ''invalid type promotion''"]
       fails hp old
  have first: "res = 0" "out_descr st' = Some (PyArray_DescrFromType np_env NPY_OBJECT)"
    "flag_set (flags st') PROMOTION_FAILED" "out_shape st' = out_shape ?st"
    "heap st' = heap ?st" "caller_cache st' = caller_cache ?st"
    "coercion_cache st' = coercion_cache ?st"
    by simp_all
  have "tail_ok ?st" "length (out_shape ?st) = 32"
    by (simp_all add: tail_ok_def read_cell_def discover_init_def fresh_state_def)
  with first have "tail_ok st'" "(32::int) \<le> int (length (out_shape st'))"
    by (simp_all add: tail_ok_def read_cell_def discover_init_def split: cell.splits)
  from Recursive_returns[OF wf_np_env _ this(2,1), of 0 33 None None "PyList [PyInt 2]"]
  obtain r st1 where rec:
    "PyArray_DiscoverDTypeAndShape_Recursive 33 np_env None None (PyList [PyInt 2]) 0 32 st'
       = Returns (r, st1)"
    by auto
  from failed_promotion_falls_back_to_object
         [where st = st' and fuel = 33 and env = np_env and fixed_DType = None
            and requested_descr = None and obj = "PyList [PyInt 2]" and curr_dims = 0
            and max_dims = 32 and r = r and ?st1.0 = st1]
       first(3) rec
  have "flag_set (flags st1) PROMOTION_FAILED"
    by (simp del: PyArray_DiscoverDTypeAndShape_Recursive.simps)
  with rec have "\<exists>r st1. PyArray_DiscoverDTypeAndShape_Recursive 33 np_env None None
                    (PyList [PyInt 2]) 0 32 st' = Returns (r, st1) \<and>
                  flag_set (flags st1) PROMOTION_FAILED"
    by blast
  with fails run hp first show ?thesis
    by (simp del: PyArray_DiscoverDTypeAndShape_Recursive.simps)
qed

subsection \<open>A requested descriptor\<close>




subsection \<open>Ragged input\<close>





subsection \<open>The empty sequence\<close>




subsection \<open>Objects that cannot be made a sequence\<close>

text \<open>
  C10. Let a node be neither a known scalar (the lookup gives \<^verbatim>\<open>Py_None\<close>) nor
  array-like, let it pass the test for sequences, and let it lie above the depth
  limit, so that \<^verbatim>\<open>PySequence_Fast\<close> is tried on it. If that raises
  \<^verbatim>\<open>KeyError\<close>, the error is cleared and the node is handled by
  \<^verbatim>\<open>handle_scalar\<close> as a leaf of unknown class. If it raises anything else, the
  call for the node returns -1 with that error set; a loop over the items of a parent
  stops at an item whose call returns -1 and returns -1 itself, and the top-level
  function, given -1 by the recursion, takes its failure exit. The same holds where
  \<^verbatim>\<open>PySequence_Fast\<close> is reached for a string under the character dtype.
\<close>

theorem key_error_makes_node_a_scalar:
  "(PySequence_Fast env obj = Inl KeyError \<longrightarrow>
      discover_sequence recurse env fixed_DType requested_descr obj curr_dims max_dims st =
      handle_scalar env obj curr_dims max_dims False fixed_DType requested_descr None
        (st\<lparr>exc := None\<rparr>)) \<and>
   (PySequence_Fast env obj = Inl e \<and> e \<noteq> KeyError \<longrightarrow>
      discover_sequence recurse env fixed_DType requested_descr obj curr_dims max_dims st =
      Returns (-1, st\<lparr>exc := Some e\<rparr>)) \<and>
   (\<not> flag_set (flags st) DISCOVER_STRINGS_AS_SEQUENCES \<and>
    discover_dtype_from_pyobject env obj fixed_DType st = (LookupNone, st1) \<and>
    \<not> PyArray_Check env obj \<and> array_from_array_like env obj requested_descr = ArrNotImplemented \<and>
    PySequence_Check env obj \<and> PySequence_Size env obj = Inr k \<and> 0 \<le> k \<and>
    \<not> (flag_set (flags st1) DISCOVER_TUPLES_AS_ELEMENTS \<and> PyTuple_Check env obj) \<and>
    curr_dims \<noteq> max_dims \<longrightarrow>
      (PySequence_Fast env obj = Inl KeyError \<longrightarrow>
         PyArray_DiscoverDTypeAndShape_Recursive (Suc n) env fixed_DType requested_descr obj
           curr_dims max_dims st =
         handle_scalar env obj curr_dims max_dims False fixed_DType requested_descr None
           (st1\<lparr>exc := None\<rparr>)) \<and>
      (PySequence_Fast env obj = Inl e \<and> e \<noteq> KeyError \<longrightarrow>
         PyArray_DiscoverDTypeAndShape_Recursive (Suc n) env fixed_DType requested_descr obj
           curr_dims max_dims st = Returns (-1, st1\<lparr>exc := Some e\<rparr>))) \<and>
   (recurse item (curr_dims + 1) max_dims st = Returns (-1, st2) \<longrightarrow>
      sequence_items recurse (item # rest) curr_dims max_dims st = Returns (-1, st2)) \<and>
   discover_result env fixed_DType requested_descr max_dims0 (-1) st2 = discover_fail st2"
  by (simp add: discover_sequence_def discover_node_def Let_def run_bind_def
      discover_result_def)

theorem key_error_makes_node_a_scalar_witness:
  "PySequence_Fast np_env PyMapping = Inl KeyError \<and>
   PySequence_Fast np_env PyBroken = Inl OtherError \<and>
   observe (PyArray_DiscoverDTypeAndShape_Recursive 1 np_env None None PyMapping 1 32
              ((discover_init fresh_state 32 None)\<lparr>out_shape := 2 # replicate 31 (-1)\<rparr>))
     = Some (1, [2], Some object_descr, None, None, 0, 0) \<and>
   observe (PyArray_DiscoverDTypeAndShape_Recursive 1 np_env None None PyBroken 1 32
              ((discover_init fresh_state 32 None)\<lparr>out_shape := 2 # replicate 31 (-1)\<rparr>))
     = Some (-1, [], None, None, Some OtherError, 0, 0) \<and>
   observe (PyArray_DiscoverDTypeAndShape 40 np_env (PyList [PyBroken, PyInt 1]) 32 None None
              fresh_state)
     = Some (-1, [], None, Some 0, Some OtherError, 0, 1)"
proof -
  let ?st = "(discover_init fresh_state 32 None)\<lparr>out_shape := 2 # replicate 31 (-1)\<rparr>"
  have fast: "PySequence_Fast np_env PyMapping = Inl KeyError"
    "PySequence_Fast np_env PyBroken = Inl OtherError"
    by (simp_all add: np_env_def)
  have noflags: "\<not> flag_set (flags ?st) DISCOVER_STRINGS_AS_SEQUENCES"
    "\<not> flag_set (flags (snd (discover_dtype_from_pyobject np_env PyMapping None ?st)))
         DISCOVER_TUPLES_AS_ELEMENTS"
    "\<not> flag_set (flags (snd (discover_dtype_from_pyobject np_env PyBroken None ?st)))
         DISCOVER_TUPLES_AS_ELEMENTS"
    by code_simp+
  have "fst (discover_dtype_from_pyobject np_env PyMapping None ?st) = LookupNone"
    "fst (discover_dtype_from_pyobject np_env PyBroken None ?st) = LookupNone"
    by code_simp+
  then have lk:
    "discover_dtype_from_pyobject np_env PyMapping None ?st =
       (LookupNone, snd (discover_dtype_from_pyobject np_env PyMapping None ?st))"
    "discover_dtype_from_pyobject np_env PyBroken None ?st =
       (LookupNone, snd (discover_dtype_from_pyobject np_env PyBroken None ?st))"
    by (simp_all add: prod_eq_iff)
  have obj: "\<not> PyArray_Check np_env PyMapping" "\<not> PyArray_Check np_env PyBroken"
    "array_from_array_like np_env PyMapping None = ArrNotImplemented"
    "array_from_array_like np_env PyBroken None = ArrNotImplemented"
    "PySequence_Check np_env PyMapping" "PySequence_Check np_env PyBroken"
    "PySequence_Size np_env PyMapping = Inr 0" "PySequence_Size np_env PyBroken = Inr 1"
    by (simp_all add: np_env_def)
  have scalar: "observe (handle_scalar np_env PyMapping 1 32 False None None None
                  (snd (discover_dtype_from_pyobject np_env PyMapping None ?st)\<lparr>exc := None\<rparr>))
                = Some (1, [2], Some object_descr, None, None, 0, 0)"
    by code_simp
  have broken: "observe (Returns (-1 :: int,
                   snd (discover_dtype_from_pyobject np_env PyBroken None ?st)\<lparr>exc := Some OtherError\<rparr>))
                = Some (-1, [], None, None, Some OtherError, 0, 0)"
    by code_simp
  have top: "observe (PyArray_DiscoverDTypeAndShape 40 np_env (PyList [PyBroken, PyInt 1]) 32
                        None None fresh_state)
              = Some (-1, [], None, Some 0, Some OtherError, 0, 1)"
    by code_simp
  from key_error_makes_node_a_scalar
         [where env = np_env and obj = PyMapping and fixed_DType = None and requested_descr = None
            and curr_dims = 1 and max_dims = 32 and st = ?st and n = 0 and k = 0
            and ?st1.0 = "snd (discover_dtype_from_pyobject np_env PyMapping None ?st)"]
       fast noflags lk obj
  have m: "PyArray_DiscoverDTypeAndShape_Recursive (Suc 0) np_env None None PyMapping 1 32 ?st =
           handle_scalar np_env PyMapping 1 32 False None None None
             (snd (discover_dtype_from_pyobject np_env PyMapping None ?st)\<lparr>exc := None\<rparr>)"
    by (simp del: PyArray_DiscoverDTypeAndShape_Recursive.simps)
  from key_error_makes_node_a_scalar
         [where env = np_env and obj = PyBroken and fixed_DType = None and requested_descr = None
            and curr_dims = 1 and max_dims = 32 and st = ?st and n = 0 and k = 1
            and e = OtherError
            and ?st1.0 = "snd (discover_dtype_from_pyobject np_env PyBroken None ?st)"]
       fast noflags lk obj
  have b: "PyArray_DiscoverDTypeAndShape_Recursive (Suc 0) np_env None None PyBroken 1 32 ?st =
           Returns (-1, snd (discover_dtype_from_pyobject np_env PyBroken None ?st)\<lparr>exc := Some OtherError\<rparr>)"
    by (simp del: PyArray_DiscoverDTypeAndShape_Recursive.simps)
  from m b scalar broken top fast show ?thesis
    by (simp del: PyArray_DiscoverDTypeAndShape_Recursive.simps)
qed

end
